theory Spec2Isabelle
  imports Main "HOL-Library.AList" "HOL-Library.Word"
begin

section \<open>JavaScript values used by the relay and the client hooks\<close>

text \<open>
  A field of a parsed JSON frame is either absent (\<open>undefined\<close>, \<open>None\<close>) or a string.
  JavaScript's truthiness test \<open>!v\<close> holds for an absent field and for the empty string.
\<close>

definition truthy :: "string option \<Rightarrow> bool" where
  "truthy v = (case v of None \<Rightarrow> False | Some s \<Rightarrow> s \<noteq> [])"

text \<open>
  A JavaScript \<open>Set\<close> keeps insertion order and ignores a second \<open>add\<close> of a member;
  a \<open>Map\<close> is an association list whose \<open>set\<close> is \<open>AList.update\<close> (in place for an
  existing key, appended for a new one) and whose \<open>delete\<close> is \<open>AList.delete\<close>.
\<close>

definition set_add :: "'a \<Rightarrow> 'a list \<Rightarrow> 'a list" where
  "set_add x xs = (if x \<in> set xs then xs else xs @ [x])"

section \<open>The signaling relay (server)\<close>

type_synonym sock = nat

record device =
  deviceId :: string
  deviceName :: "string option"
  color :: "string option"

record room =
  devices :: "(string \<times> device) list"
  sockets :: "sock list"
  socketToDeviceId :: "(sock \<times> string) list"

record join_msg =
  jm_roomId :: "string option"
  jm_deviceId :: "string option"
  jm_deviceName :: "string option"
  jm_color :: "string option"

record signal_msg =
  sm_roomId :: "string option"
  sm_from :: "string option"
  sm_to :: "string option"
  sm_signalType :: "string option"
  sm_payload :: "string option"

text \<open>A frame a client sends: \<open>Other\<close> is a frame of any other type, or one that does not parse.\<close>

datatype client_msg = Join join_msg | Signal signal_msg | Other

text \<open>
  The frames the relay sends: \<open>peers-sync\<close> (roomId, peers), \<open>peer-joined\<close> (roomId, peer),
  \<open>peer-left\<close> (deviceId, roomId), the forwarded \<open>signal\<close> (roomId, from, to, signalType,
  payload) and \<open>signal-error\<close> (reason, to, signalType).
\<close>

datatype server_frame =
    PeersSync string "device list"
  | PeerJoined string device
  | PeerLeft string string
  | SignalFwd string string string "string option" "string option"
  | SignalError string string "string option"

text \<open>
  The server's state: the global \<open>rooms\<close> map and, for every connection, the \<open>roomId\<close>
  variable of its closure (\<open>null\<close> at first).
\<close>

record server =
  rooms :: "(string \<times> room) list"
  roomIdOf :: "sock \<Rightarrow> string option"

definition init_server :: server where
  "init_server = \<lparr>rooms = [], roomIdOf = (\<lambda>_. None)\<rparr>"

definition empty_room :: room where
  "empty_room = \<lparr>devices = [], sockets = [], socketToDeviceId = []\<rparr>"

definition getOrCreateRoom :: "(string \<times> room) list \<Rightarrow> string \<Rightarrow> (string \<times> room) list \<times> room" where
  "getOrCreateRoom rms r =
     (case map_of rms r of
        Some rm \<Rightarrow> (rms, rm)
      | None \<Rightarrow> (rms @ [(r, empty_room)], empty_room))"

text \<open>
  The part of \<open>cleanupSocket\<close> that mutates the room object: the socket is deleted from
  \<open>sockets\<close> and \<open>socketToDeviceId\<close>, and when it had a deviceId that \<open>devices\<close> still has,
  that device is deleted too. The second component is the deviceId to announce in
  \<open>peer-left\<close>, if any.
\<close>

definition room_leave :: "sock \<Rightarrow> room \<Rightarrow> room \<times> string option" where
  "room_leave ws rm =
     (let dev = map_of (socketToDeviceId rm) ws;
          rm1 = rm\<lparr>sockets := removeAll ws (sockets rm),
                   socketToDeviceId := AList.delete ws (socketToDeviceId rm)\<rparr>
      in case dev of
           None \<Rightarrow> (rm1, None)
         | Some d \<Rightarrow>
             if d \<noteq> [] \<and> map_of (devices rm1) d \<noteq> None
             then (rm1\<lparr>devices := AList.delete d (devices rm1)\<rparr>, Some d)
             else (rm1, None))"

text \<open>
  \<open>cleanupSocket\<close>: the first argument is the \<open>readyState\<close> of every socket at the time
  of the call (1 is OPEN). The result is the new \<open>rooms\<close> map and the frames sent.
\<close>

definition cleanupSocket ::
  "(sock \<Rightarrow> nat) \<Rightarrow> sock \<Rightarrow> string option \<Rightarrow> (string \<times> room) list
     \<Rightarrow> (string \<times> room) list \<times> (sock \<times> server_frame) list" where
  "cleanupSocket rs ws roomId rms =
     (case roomId of
        None \<Rightarrow> (rms, [])
      | Some r \<Rightarrow>
          if r = [] then (rms, [])
          else (case map_of rms r of
            None \<Rightarrow> (rms, [])
          | Some rm \<Rightarrow>
              let (rm2, notify) = room_leave ws rm;
                  sends = (case notify of
                      None \<Rightarrow> []
                    | Some d \<Rightarrow> map (\<lambda>c. (c, PeerLeft d r)) (filter (\<lambda>c. rs c = 1) (sockets rm2)))
              in if sockets rm2 = [] then (AList.delete r rms, sends)
                 else (AList.update r rm2 rms, sends)))"

text \<open>
  The part of the \<open>join\<close> branch that mutates the room object: the socket is added to
  \<open>sockets\<close>, and a truthy \<open>deviceId\<close> is stored in \<open>devices\<close> and \<open>socketToDeviceId\<close>.
\<close>

definition room_join :: "sock \<Rightarrow> join_msg \<Rightarrow> room \<Rightarrow> room" where
  "room_join ws m rm =
     (let rm1 = rm\<lparr>sockets := set_add ws (sockets rm)\<rparr>
      in case jm_deviceId m of
           None \<Rightarrow> rm1
         | Some d \<Rightarrow>
             if d \<noteq> []
             then rm1\<lparr>devices := AList.update d
                          \<lparr>deviceId = d, deviceName = jm_deviceName m, color = jm_color m\<rparr>
                          (devices rm1),
                      socketToDeviceId := AList.update ws d (socketToDeviceId rm1)\<rparr>
             else rm1)"

text \<open>The \<open>join\<close> branch of the message handler of connection \<open>ws\<close>.\<close>

definition on_join ::
  "(sock \<Rightarrow> nat) \<Rightarrow> server \<Rightarrow> sock \<Rightarrow> join_msg \<Rightarrow> server \<times> (sock \<times> server_frame) list" where
  "on_join rs s ws m =
     (let s1 = s\<lparr>roomIdOf := (roomIdOf s)(ws := jm_roomId m)\<rparr> in
      case jm_roomId m of
        None \<Rightarrow> (s1, [])
      | Some r \<Rightarrow>
          if r = [] then (s1, [])
          else
            let (rms1, rm) = getOrCreateRoom (rooms s1) r;
                rm2 = room_join ws m rm;
                peers = filter (\<lambda>d. deviceId d \<noteq> [] \<and> Some (deviceId d) \<noteq> jm_deviceId m)
                          (map snd (devices rm2));
                joined = (case jm_deviceId m of
                    None \<Rightarrow> []
                  | Some d \<Rightarrow>
                      if d \<noteq> []
                      then map (\<lambda>c. (c, PeerJoined r
                                  \<lparr>deviceId = d, deviceName = jm_deviceName m, color = jm_color m\<rparr>))
                             (filter (\<lambda>c. c \<noteq> ws \<and> rs c = 1) (sockets rm2))
                      else [])
            in (s1\<lparr>rooms := AList.update r rm2 rms1\<rparr>, (ws, PeersSync r peers) # joined))"

text \<open>The \<open>signal\<close> branch of the message handler of connection \<open>ws\<close>: it only sends.\<close>

definition on_signal ::
  "(sock \<Rightarrow> nat) \<Rightarrow> server \<Rightarrow> sock \<Rightarrow> signal_msg \<Rightarrow> (sock \<times> server_frame) list" where
  "on_signal rs s ws m =
     (let activeRoomId = (if truthy (sm_roomId m) then sm_roomId m else roomIdOf s ws) in
      case (activeRoomId, sm_to m, sm_from m) of
        (Some r, Some t, Some f) \<Rightarrow>
          if r = [] \<or> map_of (rooms s) r = None \<or> t = [] \<or> f = [] then []
          else (case map_of (rooms s) r of
            None \<Rightarrow> []
          | Some rm \<Rightarrow>
              (case map_of (devices rm) t of
                 None \<Rightarrow>
                   if rs ws = 1 then [(ws, SignalError ''TARGET_NOT_FOUND'' t (sm_signalType m))]
                   else []
               | Some targetMetadata \<Rightarrow>
                   map (\<lambda>(c, d). (c, SignalFwd r f t (sm_signalType m) (sm_payload m)))
                     (filter (\<lambda>(c, d). d = t \<and> rs c = 1) (socketToDeviceId rm))))
      | _ \<Rightarrow> [])"

datatype event = Message sock client_msg | Close sock

fun step :: "(sock \<Rightarrow> nat) \<Rightarrow> server \<Rightarrow> event \<Rightarrow> server \<times> (sock \<times> server_frame) list" where
  "step rs s (Message ws (Join m)) = on_join rs s ws m"
| "step rs s (Message ws (Signal m)) = (s, on_signal rs s ws m)"
| "step rs s (Message ws Other) = (s, [])"
| "step rs s (Close ws) =
     (let (rms, sends) = cleanupSocket rs ws (roomIdOf s ws) (rooms s)
      in (s\<lparr>rooms := rms\<rparr>, sends))"

text \<open>
  A run of the relay: every event comes with the \<open>readyState\<close> of the sockets at the time
  it is handled. The handlers are synchronous, so events are handled one at a time.
\<close>

fun run :: "server \<Rightarrow> ((sock \<Rightarrow> nat) \<times> event) list \<Rightarrow> server" where
  "run s [] = s"
| "run s ((rs, e) # es) = run (fst (step rs s e)) es"

section \<open>The peer session hook (usePeers)\<close>

text \<open>
  JavaScript compares two strings with \<open><\<close> code unit by code unit; a proper prefix is
  smaller. A character stands for its code unit.
\<close>

fun js_lt :: "string \<Rightarrow> string \<Rightarrow> bool" where
  "js_lt [] [] = False"
| "js_lt [] (y # ys) = True"
| "js_lt (x # xs) [] = False"
| "js_lt (x # xs) (y # ys) =
     (if (of_char x :: nat) < of_char y then True
      else if (of_char y :: nat) < of_char x then False
      else js_lt xs ys)"

text \<open>The \<open>readyState\<close> of an RTCDataChannel, and the channel object with its label.\<close>

datatype chan_state = Connecting | Open | Closing | Closed

record data_channel =
  label :: string
  readyState :: chan_state

text \<open>A peer connection object; all the model keeps of it is the peer it was created for.\<close>

datatype peer_connection = PeerConnection string

text \<open>
  The refs and the state of the hook: \<open>peerConnectionsRef\<close>, \<open>dataChannelsRef\<close>,
  \<open>connectingPeersRef\<close>, \<open>channelsVersion\<close> and \<open>webrtcStateByPeer\<close> (the \<open>channelState\<close> of
  each peer).
\<close>

record peers_state =
  peerConnections :: "(string \<times> peer_connection) list"
  dataChannels :: "(string \<times> data_channel) list"
  connectingPeers :: "string list"
  channelsVersion :: nat
  webrtcStateByPeer :: "(string \<times> chan_state) list"

definition handleDataChannelReady :: "peers_state \<Rightarrow> string \<Rightarrow> data_channel \<Rightarrow> peers_state" where
  "handleDataChannelReady st peerId channel =
     (if map_of (dataChannels st) peerId \<noteq> None then st
      else st\<lparr>dataChannels := AList.update peerId channel (dataChannels st),
              channelsVersion := channelsVersion st + 1,
              webrtcStateByPeer := AList.update peerId (readyState channel) (webrtcStateByPeer st)\<rparr>)"

text \<open>
  What the initiator effect does for one entry of \<open>signalingPeers\<close>, as the calls it makes:
  \<open>createPeerConnection\<close>, \<open>pc.createDataChannel("files")\<close> and \<open>pc.createOffer()\<close>.
  \<open>localId\<close> is the hook's own \<open>deviceId\<close>.
\<close>

datatype peer_action = CreatePeerConnection string | CreateDataChannel string string | CreateOffer string

definition initiate_peer ::
  "string \<Rightarrow> peers_state \<Rightarrow> string option \<Rightarrow> peers_state \<times> peer_action list" where
  "initiate_peer localId st peer =
     (case peer of
        None \<Rightarrow> (st, [])
      | Some peerId \<Rightarrow>
          if peerId = [] \<or> peerId = localId then (st, [])
          else if map_of (peerConnections st) peerId \<noteq> None \<or> peerId \<in> set (connectingPeers st)
          then (st, [])
          else
            let iAmInitiator = js_lt localId peerId in
            if \<not> iAmInitiator then (st, [])
            else
              let st1 = st\<lparr>connectingPeers := set_add peerId (connectingPeers st)\<rparr>;
                  st2 = st1\<lparr>peerConnections :=
                              AList.update peerId (PeerConnection peerId) (peerConnections st1)\<rparr>;
                  channel = \<lparr>label = ''files'', readyState = Connecting\<rparr>
              in (handleDataChannelReady st2 peerId channel,
                  [CreatePeerConnection peerId, CreateDataChannel peerId ''files'',
                   CreateOffer peerId]))"

definition init_peers :: peers_state where
  "init_peers = \<lparr>peerConnections = [], dataChannels = [], connectingPeers = [],
                  channelsVersion = 0, webrtcStateByPeer = []\<rparr>"

text \<open>The effect runs over \<open>signalingPeers\<close> in order (the \<open>deviceId\<close> of each entry).\<close>

fun initiate_all ::
  "string \<Rightarrow> peers_state \<Rightarrow> string option list \<Rightarrow> peers_state \<times> peer_action list" where
  "initiate_all localId st [] = (st, [])"
| "initiate_all localId st (p # ps) =
     (let (st1, a1) = initiate_peer localId st p;
          (st2, a2) = initiate_all localId st1 ps
      in (st2, a1 @ a2))"

section \<open>The transfer engine (useFileTransfer)\<close>

subsection \<open>Data\<close>

definition CHUNK_SIZE :: nat where
  "CHUNK_SIZE = 128 * 1024"

text \<open>
  A \<open>File\<close>: \<open>f_ref\<close> is the identity of the object (what \<open>===\<close> compares); its \<open>size\<close> is
  the length of \<open>f_bytes\<close>.
\<close>

record js_file =
  f_ref :: nat
  f_name :: string
  f_bytes :: "8 word list"
  f_type :: string

text \<open>\<open>Blob.slice(a, b)\<close> for \<open>a \<le> b\<close>: the bytes from \<open>a\<close> up to \<open>b\<close>, clamped to the size.\<close>

definition blob_slice :: "'a list \<Rightarrow> nat \<Rightarrow> nat \<Rightarrow> 'a list" where
  "blob_slice bs a b = take (b - a) (drop a bs)"

text \<open>A transfer id \<open>tx-<Date.now()>-<transferCounter>\<close>.\<close>

datatype transfer_id = Tx nat nat

datatype direction = Send | Receive

datatype status = Queued | InProgress | Completed | Failed

text \<open>
  An entry of \<open>transfers\<close>. Its \<open>progress\<close> and \<open>speedBps\<close> are floating-point numbers
  computed from the wall clock; they are left out.
\<close>

record transfer =
  t_id :: transfer_id
  t_direction :: direction
  t_peerId :: string
  t_name :: string
  t_size :: nat
  t_status :: status

record pending =
  p_file :: js_file
  p_transferId :: transfer_id
  p_retries :: nat

text \<open>An entry of \<open>incomingStateRef\<close> (without \<open>startedAt\<close>, a wall-clock time).\<close>

record incoming =
  in_peerId :: string
  in_name :: string
  in_size :: nat
  in_mimeType :: string
  receivedBytes :: nat
  chunks :: "8 word list list"

text \<open>
  The frames on a data channel: the two JSON control frames, a binary chunk, and any other
  text (JSON of another type, or text that does not parse).
\<close>

datatype dc_frame =
    FileMeta transfer_id string nat string string
  | FileComplete transfer_id
  | Chunk "8 word list"
  | OtherText

record hook =
  transfers :: "transfer list"
  pendingFiles :: "(string \<times> pending list) list"
  transferCounter :: nat
  incomingState :: "(transfer_id \<times> incoming) list"

definition init_hook :: hook where
  "init_hook = \<lparr>transfers = [], pendingFiles = [], transferCounter = 0, incomingState = []\<rparr>"

subsection \<open>Starting a send, and the pending queue\<close>

text \<open>\<open>createTransferId\<close>; \<open>now\<close> is what \<open>Date.now()\<close> returns.\<close>

definition createTransferId :: "nat \<Rightarrow> hook \<Rightarrow> transfer_id \<times> hook" where
  "createTransferId now st =
     (Tx now (transferCounter st + 1), st\<lparr>transferCounter := transferCounter st + 1\<rparr>)"

text \<open>\<open>Array.prototype.findIndex\<close>, with \<open>None\<close> for \<open>-1\<close>.\<close>

fun findIndex :: "('a \<Rightarrow> bool) \<Rightarrow> 'a list \<Rightarrow> nat option" where
  "findIndex P [] = None"
| "findIndex P (x # xs) = (if P x then Some 0 else map_option Suc (findIndex P xs))"

text \<open>\<open>setTransfers(prev => prev.map(t => t.id === id ? {...t, status} : t))\<close>.\<close>

definition set_status :: "transfer_id \<Rightarrow> status \<Rightarrow> transfer list \<Rightarrow> transfer list" where
  "set_status tid s ts = map (\<lambda>t. if t_id t = tid then t\<lparr>t_status := s\<rparr> else t) ts"

text \<open>
  The two branches of \<open>sendFileToPeerInternal\<close> that queue the file (no channel, or a
  channel that is not open) do the same: a new id, a pending entry with \<open>retries: 0\<close> at the
  end of the peer's list, and a \<open>queued\<close> transfer at the front of \<open>transfers\<close>.
\<close>

definition enqueue :: "nat \<Rightarrow> hook \<Rightarrow> string \<Rightarrow> js_file \<Rightarrow> hook" where
  "enqueue now st peerId f =
     (let (transferId, st1) = createTransferId now st;
          pend = (case map_of (pendingFiles st1) peerId of None \<Rightarrow> [] | Some ps \<Rightarrow> ps)
      in st1\<lparr>pendingFiles :=
                AList.update peerId
                  (pend @ [\<lparr>p_file = f, p_transferId = transferId, p_retries = 0\<rparr>])
                  (pendingFiles st1),
              transfers :=
                \<lparr>t_id = transferId, t_direction = Send, t_peerId = peerId, t_name = f_name f,
                 t_size = length (f_bytes f), t_status = Queued\<rparr> # transfers st1\<rparr>)"

text \<open>
  What \<open>sendFileToPeerInternal\<close> starts when the channel is open: the \<open>file-meta\<close> frame sent
  on the peer's channel, and the first \<open>readSlice()\<close> of the file under the transfer id.
\<close>

datatype start_action = SendMeta string dc_frame | StartReading string transfer_id js_file

definition meta_frame :: "string \<Rightarrow> transfer_id \<Rightarrow> js_file \<Rightarrow> dc_frame" where
  "meta_frame localId tid f = FileMeta tid (f_name f) (length (f_bytes f)) (f_type f) localId"

text \<open>
  \<open>sendFileToPeerInternal(peerId, file, isRetry)\<close>, called with a file and with a Map (the
  two checks at its head pass). \<open>channelsByPeer\<close> is the map of data channels with their
  \<open>readyState\<close> at the time of the call, \<open>localId\<close> is \<open>localDevice.deviceId\<close>.
\<close>

definition sendFileToPeerInternal ::
  "(string \<times> data_channel) list \<Rightarrow> nat \<Rightarrow> string \<Rightarrow> hook \<Rightarrow> string \<Rightarrow> js_file \<Rightarrow> bool
     \<Rightarrow> hook \<times> start_action list" where
  "sendFileToPeerInternal channelsByPeer now localId st peerId f isRetry =
     (case map_of channelsByPeer peerId of
        None \<Rightarrow> (if isRetry then st else enqueue now st peerId f, [])
      | Some channel \<Rightarrow>
          if readyState channel \<noteq> Open
          then (if isRetry then st else enqueue now st peerId f, [])
          else
            let found =
                  (if isRetry
                   then (case map_of (pendingFiles st) peerId of
                           None \<Rightarrow> None
                         | Some ps \<Rightarrow>
                             (case findIndex (\<lambda>p. f_ref (p_file p) = f_ref f \<or>
                                                    f_name (p_file p) = f_name f) ps of
                                None \<Rightarrow> None
                              | Some i \<Rightarrow> Some (ps, i)))
                   else None);
                (tid, st1) =
                  (case found of
                     Some (ps, i) \<Rightarrow>
                       (p_transferId (ps ! i),
                        st\<lparr>pendingFiles :=
                             AList.update peerId
                               (ps[i := (ps ! i)\<lparr>p_retries := p_retries (ps ! i) + 1\<rparr>])
                               (pendingFiles st)\<rparr>)
                   | None \<Rightarrow> createTransferId now st);
                st2 =
                  (case found of
                     Some (ps, i) \<Rightarrow> st1\<lparr>transfers := set_status tid InProgress (transfers st1)\<rparr>
                   | None \<Rightarrow>
                       st1\<lparr>transfers :=
                             \<lparr>t_id = tid, t_direction = Send, t_peerId = peerId, t_name = f_name f,
                              t_size = length (f_bytes f), t_status = InProgress\<rparr>
                             # transfers st1\<rparr>)
            in (st2, [SendMeta peerId (meta_frame localId tid f), StartReading peerId tid f]))"

definition sendFileToPeer ::
  "(string \<times> data_channel) list \<Rightarrow> nat \<Rightarrow> string \<Rightarrow> hook \<Rightarrow> string \<Rightarrow> js_file
     \<Rightarrow> hook \<times> start_action list" where
  "sendFileToPeer channelsByPeer now localId st peerId f =
     sendFileToPeerInternal channelsByPeer now localId st peerId f False"

text \<open>\<open>filesToSend.forEach(({ file }) => sendFileToPeerInternal(peerId, file, true))\<close>.\<close>

fun retry_all ::
  "(string \<times> data_channel) list \<Rightarrow> nat \<Rightarrow> string \<Rightarrow> hook \<Rightarrow> string \<Rightarrow> js_file list
     \<Rightarrow> hook \<times> start_action list" where
  "retry_all channelsByPeer now localId st peerId [] = (st, [])"
| "retry_all channelsByPeer now localId st peerId (f # fs) =
     (let (st1, a1) = sendFileToPeerInternal channelsByPeer now localId st peerId f True;
          (st2, a2) = retry_all channelsByPeer now localId st1 peerId fs
      in (st2, a1 @ a2))"

text \<open>
  \<open>pendingFiles.splice(pendingFiles.indexOf(sent), 1)\<close>: the entry removed is the object
  \<open>sent\<close> itself, which its transfer id names (every entry gets a new id).
\<close>

fun remove_entry :: "transfer_id \<Rightarrow> pending list \<Rightarrow> pending list" where
  "remove_entry tid [] = []"
| "remove_entry tid (p # ps) = (if p_transferId p = tid then ps else p # remove_entry tid ps)"

text \<open>
  The body of the reconciliation effect for one entry \<open>(pendingFiles, peerId)\<close> of
  \<open>pendingFilesRef\<close>.
\<close>

definition reconcile_peer ::
  "(string \<times> data_channel) list \<Rightarrow> nat \<Rightarrow> string \<Rightarrow> hook \<Rightarrow> string
     \<Rightarrow> hook \<times> start_action list" where
  "reconcile_peer channelsByPeer now localId st peerId =
     (case map_of (pendingFiles st) peerId of
        None \<Rightarrow> (st, [])
      | Some pend \<Rightarrow>
          (case map_of channelsByPeer peerId of
             None \<Rightarrow> (st, [])
           | Some channel \<Rightarrow>
               if readyState channel \<noteq> Open then (st, [])
               else
                 let filesToSend = filter (\<lambda>p. p_retries p < 5) pend;
                     exceeded = filter (\<lambda>p. \<not> p_retries p < 5) pend;
                     st1 = st\<lparr>transfers :=
                                fold (\<lambda>p. set_status (p_transferId p) Failed) exceeded (transfers st)\<rparr>;
                     (st2, acts) =
                       retry_all channelsByPeer now localId st1 peerId (map p_file filesToSend);
                     pend2 = (case map_of (pendingFiles st2) peerId of None \<Rightarrow> [] | Some ps \<Rightarrow> ps);
                     pend3 = fold (\<lambda>p. remove_entry (p_transferId p)) filesToSend pend2
                 in (if pend3 = []
                     then st2\<lparr>pendingFiles := AList.delete peerId (pendingFiles st2)\<rparr>
                     else st2\<lparr>pendingFiles := AList.update peerId pend3 (pendingFiles st2)\<rparr>,
                     acts)))"

text \<open>The effect: \<open>pendingFilesRef.current.forEach\<close> over the peers with pending files.\<close>

fun reconcile_peers ::
  "(string \<times> data_channel) list \<Rightarrow> nat \<Rightarrow> string \<Rightarrow> hook \<Rightarrow> string list
     \<Rightarrow> hook \<times> start_action list" where
  "reconcile_peers channelsByPeer now localId st [] = (st, [])"
| "reconcile_peers channelsByPeer now localId st (p # ps) =
     (let (st1, a1) = reconcile_peer channelsByPeer now localId st p;
          (st2, a2) = reconcile_peers channelsByPeer now localId st1 ps
      in (st2, a1 @ a2))"

definition reconcile ::
  "(string \<times> data_channel) list \<Rightarrow> nat \<Rightarrow> string \<Rightarrow> hook \<Rightarrow> hook \<times> start_action list" where
  "reconcile channelsByPeer now localId st =
     reconcile_peers channelsByPeer now localId st (map fst (pendingFiles st))"

text \<open>Whether the peer has a channel whose \<open>readyState\<close> is \<open>open\<close>.\<close>

definition channel_open :: "(string \<times> data_channel) list \<Rightarrow> string \<Rightarrow> bool" where
  "channel_open channelsByPeer peerId =
     (case map_of channelsByPeer peerId of None \<Rightarrow> False | Some channel \<Rightarrow> readyState channel = Open)"

text \<open>
  A run of reconciliation passes: each pass comes with the channels map and the clock of
  its time.
\<close>

fun reconcile_passes ::
  "string \<Rightarrow> hook \<Rightarrow> ((string \<times> data_channel) list \<times> nat) list \<Rightarrow> hook \<times> start_action list" where
  "reconcile_passes localId st [] = (st, [])"
| "reconcile_passes localId st ((channelsByPeer, now) # rest) =
     (let (st1, a1) = reconcile channelsByPeer now localId st;
          (st2, a2) = reconcile_passes localId st1 rest
      in (st2, a1 @ a2))"

subsection \<open>The chunked send loop\<close>

text \<open>
  After \<open>readSlice()\<close> the send of a file goes on in callbacks: \<open>reader.onload\<close> (with the
  channel's \<open>readyState\<close> and \<open>bufferedAmount\<close> at that time), the timer that \<open>sendChunk\<close>
  sets (likewise), and \<open>reader.onerror\<close>. The state of a send is its \<open>offset\<close> and what it
  waits for: a read (\<open>Reading\<close>), the timer (\<open>Waiting\<close>), or nothing any more (\<open>Finished\<close>
  after \<open>file-complete\<close>, \<open>Aborted\<close> otherwise).
\<close>

datatype send_phase = Reading | Waiting | Finished | Aborted

record sender =
  offset :: nat
  phase :: send_phase

datatype reader_event = OnLoad chan_state nat | OnTimer chan_state nat | OnError

text \<open>
  What a callback does: a frame sent on the channel, \<open>setTimeout(sendChunk, ms)\<close>,
  \<open>readSlice()\<close> at an offset, and the status it sets on the transfer.
\<close>

datatype send_effect = ChanSend dc_frame | SetTimeout nat | ReadSlice nat | SetStatus status

definition highWaterMark :: nat where
  "highWaterMark = 4 * 1024 * 1024"

text \<open>
  \<open>sendChunk\<close>, called with the channel's state and \<open>bufferedAmount\<close>. \<open>buffer\<close> is the
  slice read at the current offset. \<open>channel.send\<close> throws on a channel that is not open
  (only the timer can call it so, \<open>onload\<close> has checked): the exception ends the callback.
\<close>

definition sendChunk ::
  "transfer_id \<Rightarrow> js_file \<Rightarrow> sender \<Rightarrow> chan_state \<Rightarrow> nat \<Rightarrow> sender \<times> send_effect list" where
  "sendChunk tid f st cs bufferedAmount =
     (if bufferedAmount > highWaterMark then (st\<lparr>phase := Waiting\<rparr>, [SetTimeout 50])
      else if cs \<noteq> Open then (st\<lparr>phase := Aborted\<rparr>, [])
      else
        let buffer = blob_slice (f_bytes f) (offset st) (offset st + CHUNK_SIZE);
            offset' = offset st + CHUNK_SIZE
        in if offset' < length (f_bytes f)
           then (\<lparr>offset = offset', phase = Reading\<rparr>, [ChanSend (Chunk buffer), ReadSlice offset'])
           else (\<lparr>offset = offset', phase = Finished\<rparr>,
                 [ChanSend (Chunk buffer), ChanSend (FileComplete tid), SetStatus Completed]))"

fun sender_step ::
  "transfer_id \<Rightarrow> js_file \<Rightarrow> sender \<Rightarrow> reader_event \<Rightarrow> sender \<times> send_effect list" where
  "sender_step tid f st (OnLoad cs b) =
     (if phase st \<noteq> Reading then (st, [])
      else if cs \<noteq> Open then (st\<lparr>phase := Aborted\<rparr>, [SetStatus Failed])
      else sendChunk tid f st cs b)"
| "sender_step tid f st (OnTimer cs b) =
     (if phase st \<noteq> Waiting then (st, []) else sendChunk tid f st cs b)"
| "sender_step tid f st OnError =
     (if phase st \<noteq> Reading then (st, []) else (st\<lparr>phase := Aborted\<rparr>, [SetStatus Failed]))"

fun sender_run ::
  "transfer_id \<Rightarrow> js_file \<Rightarrow> sender \<Rightarrow> reader_event list \<Rightarrow> sender \<times> send_effect list" where
  "sender_run tid f st [] = (st, [])"
| "sender_run tid f st (e # es) =
     (let (st1, a1) = sender_step tid f st e;
          (st2, a2) = sender_run tid f st1 es
      in (st2, a1 @ a2))"

text \<open>The frames among the effects, in the order they are sent.\<close>

fun sent_frames :: "send_effect list \<Rightarrow> dc_frame list" where
  "sent_frames [] = []"
| "sent_frames (ChanSend fr # es) = fr # sent_frames es"
| "sent_frames (e # es) = sent_frames es"


subsection \<open>Receiving\<close>

text \<open>What a \<open>file-complete\<close> frame hands to the browser: the download's name, type and bytes.\<close>

datatype download = Download string string "8 word list"

text \<open>
  The \<open>binaryType\<close> of the receiving channel decides what \<open>event.data\<close> is for a binary
  frame: an \<open>ArrayBuffer\<close>, whose \<open>byteLength\<close> is the number of its bytes, or a \<open>Blob\<close>,
  which has no \<open>byteLength\<close>. The hook never sets \<open>binaryType\<close>, so it is the browser's
  default, and either can be the case.
\<close>

datatype binary_type = ArrayBufferType | BlobType

text \<open>\<open>event.data.byteLength || 0\<close>: for a \<open>Blob\<close> the \<open>byteLength\<close> is \<open>undefined\<close>.\<close>

definition byteLength_or_0 :: "binary_type \<Rightarrow> 8 word list \<Rightarrow> nat" where
  "byteLength_or_0 bt d = (case bt of ArrayBufferType \<Rightarrow> length d | BlobType \<Rightarrow> 0)"

text \<open>
  The loop over \<open>incomingStateRef.current.entries()\<close> for a binary frame: the first entry of
  the peer with \<open>receivedBytes < size\<close> gets the chunk, and the loop breaks.
\<close>

fun attribute_chunk ::
  "binary_type \<Rightarrow> string \<Rightarrow> 8 word list \<Rightarrow> (transfer_id \<times> incoming) list
     \<Rightarrow> (transfer_id \<times> incoming) list" where
  "attribute_chunk bt peerId d [] = []"
| "attribute_chunk bt peerId d ((tid, a) # rest) =
     (if in_peerId a = peerId \<and> receivedBytes a < in_size a
      then (tid, a\<lparr>chunks := chunks a @ [d],
                   receivedBytes := receivedBytes a + byteLength_or_0 bt d\<rparr>) # rest
      else (tid, a) # attribute_chunk bt peerId d rest)"

text \<open>
  \<open>channel.onmessage\<close> of the channel of peer \<open>peerId\<close>, whose \<open>binaryType\<close> is \<open>bt\<close>. The
  \<open>Blob\<close> that \<open>file-complete\<close> builds holds the bytes of the chunks in order, whether they
  came as \<open>ArrayBuffer\<close>s or as \<open>Blob\<close>s.
\<close>

definition onmessage ::
  "binary_type \<Rightarrow> string \<Rightarrow> hook \<Rightarrow> dc_frame \<Rightarrow> hook \<times> download list" where
  "onmessage bt peerId st fr =
     (case fr of
        FileMeta tid name sz mimeType sender \<Rightarrow>
          (st\<lparr>incomingState :=
                AList.update tid
                  \<lparr>in_peerId = peerId, in_name = name, in_size = sz, in_mimeType = mimeType,
                   receivedBytes = 0, chunks = []\<rparr>
                  (incomingState st),
              transfers :=
                \<lparr>t_id = tid, t_direction = Receive, t_peerId = peerId, t_name = name,
                 t_size = sz, t_status = InProgress\<rparr> # transfers st\<rparr>, [])
      | FileComplete tid \<Rightarrow>
          (case map_of (incomingState st) tid of
             None \<Rightarrow> (st, [])
           | Some a \<Rightarrow>
               (st\<lparr>incomingState := AList.delete tid (incomingState st),
                   transfers := set_status tid Completed (transfers st)\<rparr>,
                [Download (if in_name a = [] then ''file'' else in_name a)
                   (if in_mimeType a = [] then ''application/octet-stream'' else in_mimeType a)
                   (concat (chunks a))]))
      | Chunk d \<Rightarrow> (st\<lparr>incomingState := attribute_chunk bt peerId d (incomingState st)\<rparr>, [])
      | OtherText \<Rightarrow> (st, []))"

fun receive_all ::
  "binary_type \<Rightarrow> string \<Rightarrow> hook \<Rightarrow> dc_frame list \<Rightarrow> hook \<times> download list" where
  "receive_all bt peerId st [] = (st, [])"
| "receive_all bt peerId st (fr # frs) =
     (let (st1, d1) = onmessage bt peerId st fr;
          (st2, d2) = receive_all bt peerId st1 frs
      in (st2, d1 @ d2))"

text \<open>The test of the attribution loop: an assembly of the peer that is not yet complete.\<close>

definition incomplete_for :: "string \<Rightarrow> incoming \<Rightarrow> bool" where
  "incomplete_for peerId a = (in_peerId a = peerId \<and> receivedBytes a < in_size a)"


section \<open>Runs and invariants of the relay\<close>

text \<open>
  For stating runs: a join frame with a room and a deviceId (no name, no colour), and the
  \<open>readyState\<close> in which every socket is OPEN.
\<close>

definition join_frame :: "string \<Rightarrow> string \<Rightarrow> client_msg" where
  "join_frame r d =
     Join \<lparr>jm_roomId = Some r, jm_deviceId = Some d, jm_deviceName = None, jm_color = None\<rparr>"

definition all_open :: "sock \<Rightarrow> nat" where
  "all_open = (\<lambda>_. 1)"

subsection \<open>Invariants of the room registry\<close>

text \<open>
  What every room object satisfies after any sequence of events: \<open>sockets\<close> has no
  duplicates and is not empty, every socket with a device mapping is in \<open>sockets\<close>, and no
  socket is mapped to the empty deviceId.
\<close>

definition sockets_inv :: "room \<Rightarrow> bool" where
  "sockets_inv rm =
     (distinct (sockets rm) \<and> sockets rm \<noteq> [] \<and>
      dom (map_of (socketToDeviceId rm)) \<subseteq> set (sockets rm) \<and>
      [] \<notin> ran (map_of (socketToDeviceId rm)))"

definition directory_inv :: "room \<Rightarrow> bool" where
  "directory_inv rm =
     (dom (map_of (devices rm)) = ran (map_of (socketToDeviceId rm)) \<and>
      inj_on (map_of (socketToDeviceId rm)) (dom (map_of (socketToDeviceId rm))))"

text \<open>
  A join is \<open>fresh\<close> when its truthy deviceId is not yet in the directory of the room it
  joins and its socket has no device mapping in that room yet. \<open>fresh_joins\<close> says so of
  every join of a run.
\<close>

definition join_fresh :: "server \<Rightarrow> sock \<Rightarrow> join_msg \<Rightarrow> bool" where
  "join_fresh s ws m =
     (case (jm_roomId m, jm_deviceId m) of
        (Some r, Some d) \<Rightarrow>
          (case map_of (rooms s) r of
             None \<Rightarrow> True
           | Some rm \<Rightarrow>
               d = [] \<or> (map_of (devices rm) d = None \<and> map_of (socketToDeviceId rm) ws = None))
      | _ \<Rightarrow> True)"

fun fresh_joins :: "server \<Rightarrow> ((sock \<Rightarrow> nat) \<times> event) list \<Rightarrow> bool" where
  "fresh_joins s [] = True"
| "fresh_joins s ((rs, e) # es) =
     ((case e of Message ws (Join m) \<Rightarrow> join_fresh s ws m | _ \<Rightarrow> True) \<and>
      fresh_joins (fst (step rs s e)) es)"

definition server_sockets_inv :: "server \<Rightarrow> bool" where
  "server_sockets_inv s = (\<forall>r rm. map_of (rooms s) r = Some rm \<longrightarrow> r \<noteq> [] \<and> sockets_inv rm)"

definition server_directory_inv :: "server \<Rightarrow> bool" where
  "server_directory_inv s = (\<forall>r rm. map_of (rooms s) r = Some rm \<longrightarrow> directory_inv rm)"

text \<open>
  The invariant of the data model, in its own words: in every room of the registry, every
  socket with an entry in \<open>socketToDeviceId\<close> is in \<open>sockets\<close> and \<open>sockets\<close> is not empty
  (\<open>registry_inv\<close>); a deviceId is a key of \<open>devices\<close> iff some socket maps to it
  (\<open>directory_matches\<close>).
\<close>

definition registry_inv :: "server \<Rightarrow> bool" where
  "registry_inv s =
     (\<forall>r rm. map_of (rooms s) r = Some rm \<longrightarrow>
        (\<forall>ws. map_of (socketToDeviceId rm) ws \<noteq> None \<longrightarrow> ws \<in> set (sockets rm)) \<and>
        sockets rm \<noteq> [])"

definition directory_matches :: "server \<Rightarrow> bool" where
  "directory_matches s =
     (\<forall>r rm. map_of (rooms s) r = Some rm \<longrightarrow>
        (\<forall>d. (map_of (devices rm) d \<noteq> None) = (\<exists>ws. map_of (socketToDeviceId rm) ws = Some d)))"

section \<open>Properties of the relay\<close>

subsection \<open>Signal frames without a sender are dropped\<close>

text \<open>
  C10: a \<open>signal\<close> frame whose \<open>from\<close> field is missing or empty is dropped silently:
  the relay sends nothing (no forwarded frame, no \<open>signal-error\<close>) and its state is
  unchanged, whatever the room and the \<open>to\<close> field are.
\<close>

theorem signal_without_from_dropped:
  "\<not> truthy (sm_from m) \<Longrightarrow> step rs s (Message ws (Signal m)) = (s, [])"
proof (cases "sm_from m")
  case None
  then show ?thesis by (simp add: on_signal_def Let_def split: option.splits)
next
  case (Some f)
  assume "\<not> truthy (sm_from m)"
  with Some have "f = []" by (simp add: truthy_def)
  with Some show ?thesis by (simp add: on_signal_def Let_def split: option.splits)
qed

text \<open>
  The same at a concrete state: devices \<open>a\<close> and \<open>b\<close> are in room \<open>R\<close>, and socket 1
  sends a signal to \<open>b\<close> with no \<open>from\<close> field.
\<close>

theorem signal_without_from_dropped_witness:
  "\<not> truthy (sm_from \<lparr>sm_roomId = Some ''R'', sm_from = None, sm_to = Some ''b'',
                          sm_signalType = Some ''offer'', sm_payload = None\<rparr>) \<and>
   step (\<lambda>_. 1)
     \<lparr>rooms = [(''R'', \<lparr>devices = [(''a'', \<lparr>deviceId = ''a'', deviceName = None, color = None\<rparr>),
                                    (''b'', \<lparr>deviceId = ''b'', deviceName = None, color = None\<rparr>)],
                        sockets = [1, 2],
                        socketToDeviceId = [(1, ''a''), (2, ''b'')]\<rparr>)],
      roomIdOf = (\<lambda>_. Some ''R'')\<rparr>
     (Message 1 (Signal \<lparr>sm_roomId = Some ''R'', sm_from = None, sm_to = Some ''b'',
                          sm_signalType = Some ''offer'', sm_payload = None\<rparr>))
   = (\<lparr>rooms = [(''R'', \<lparr>devices = [(''a'', \<lparr>deviceId = ''a'', deviceName = None, color = None\<rparr>),
                                    (''b'', \<lparr>deviceId = ''b'', deviceName = None, color = None\<rparr>)],
                        sockets = [1, 2],
                        socketToDeviceId = [(1, ''a''), (2, ''b'')]\<rparr>)],
      roomIdOf = (\<lambda>_. Some ''R'')\<rparr>, [])"
  using signal_without_from_dropped
    [of "\<lparr>sm_roomId = Some ''R'', sm_from = None, sm_to = Some ''b'',
          sm_signalType = Some ''offer'', sm_payload = None\<rparr>"]
  by (simp add: truthy_def)

subsection \<open>Lemmas on the room object and the registry\<close>

text \<open>The definitions that evaluate a run of the relay on concrete frames.\<close>

lemmas relay_eval = init_server_def on_join_def getOrCreateRoom_def empty_room_def room_join_def
        set_add_def cleanupSocket_def room_leave_def Let_def join_frame_def all_open_def

lemma set_set_add: "set (set_add x xs) = insert x (set xs)"
  by (auto simp: set_add_def)

lemma distinct_set_add: "distinct xs \<Longrightarrow> distinct (set_add x xs)"
  by (auto simp: set_add_def)

lemma set_add_nonempty: "set_add x xs \<noteq> []"
  by (auto simp: set_add_def)

lemma ran_upd_subset: "ran (m(k \<mapsto> v)) \<subseteq> insert v (ran m)"
  by (auto simp: ran_def split: if_splits)

lemma room_join_sockets_inv:
  assumes "distinct (sockets rm)" "dom (map_of (socketToDeviceId rm)) \<subseteq> set (sockets rm)"
    "[] \<notin> ran (map_of (socketToDeviceId rm))"
  shows "sockets_inv (room_join ws m rm)"
proof -
  have "[] \<notin> ran ((map_of (socketToDeviceId rm))(ws \<mapsto> d))" if "d \<noteq> []" for d
    using ran_upd_subset[of "map_of (socketToDeviceId rm)" ws d] assms(3) that by auto
  then show ?thesis
    using assms
    by (auto simp: sockets_inv_def room_join_def Let_def set_set_add distinct_set_add
        set_add_nonempty update_conv' split: option.splits)
qed

lemma room_leave_sockets_inv:
  assumes "sockets_inv rm" "sockets (fst (room_leave ws rm)) \<noteq> []"
  shows "sockets_inv (fst (room_leave ws rm))"
proof -
  have "ran ((map_of (socketToDeviceId rm))(ws := None)) \<subseteq> ran (map_of (socketToDeviceId rm))"
    by (auto simp: ran_def split: if_splits)
  then show ?thesis
    using assms
    by (auto simp: sockets_inv_def room_leave_def Let_def delete_conv' distinct_removeAll
        split: option.splits if_splits)
qed

lemma room_join_directory_inv:
  assumes "directory_inv rm"
    and "\<And>d. jm_deviceId m = Some d \<Longrightarrow> d \<noteq> [] \<Longrightarrow>
           map_of (devices rm) d = None \<and> map_of (socketToDeviceId rm) ws = None"
  shows "directory_inv (room_join ws m rm)"
proof (cases "jm_deviceId m")
  case None
  then show ?thesis using assms(1) by (simp add: room_join_def directory_inv_def Let_def)
next
  case (Some d)
  show ?thesis
  proof (cases "d = []")
    case True
    with Some show ?thesis using assms(1) by (simp add: room_join_def directory_inv_def Let_def)
  next
    case False
    let ?M = "map_of (socketToDeviceId rm)"
    from assms(2)[OF Some False] have fresh: "map_of (devices rm) d = None" "?M ws = None"
      by auto
    from assms(1) have dr: "dom (map_of (devices rm)) = ran ?M" and inj: "inj_on ?M (dom ?M)"
      by (auto simp: directory_inv_def)
    from fresh(1) have "d \<notin> dom (map_of (devices rm))" by (simp add: domIff)
    with dr have dnot: "d \<notin> ran ?M" by simp
    have 1: "ran (?M(ws \<mapsto> d)) = insert d (ran ?M)"
      using fresh(2) by simp
    have 2: "inj_on (?M(ws \<mapsto> d)) (dom (?M(ws \<mapsto> d)))"
      using inj dnot fresh(2)
      by (auto simp: inj_on_def ran_def dom_def split: if_splits)
    show ?thesis
      using Some False dr 1 2
      by (simp add: room_join_def directory_inv_def Let_def update_conv')
  qed
qed

lemma ran_remove_inj:
  assumes "m k = Some v" "inj_on m (dom m)"
  shows "ran (m(k := None)) = ran m - {v}"
proof (rule set_eqI)
  fix x
  show "x \<in> ran (m(k := None)) \<longleftrightarrow> x \<in> ran m - {v}"
  proof
    assume "x \<in> ran (m(k := None))"
    then obtain a where a: "(m(k := None)) a = Some x"
      unfolding ran_def by blast
    then have ak: "a \<noteq> k" and ma: "m a = Some x"
      by (simp_all split: if_splits)
    have "x \<noteq> v"
    proof
      assume "x = v"
      with ma assms(1) have "m a = m k" by simp
      moreover have "a \<in> dom m" "k \<in> dom m" using ma assms(1) by (simp_all add: domI)
      ultimately have "a = k" using assms(2) by (simp add: inj_on_def)
      with ak show False by simp
    qed
    moreover from ma have "x \<in> ran m" by (rule ranI)
    ultimately show "x \<in> ran m - {v}" by simp
  next
    assume "x \<in> ran m - {v}"
    then have xr: "x \<in> ran m" and xv: "x \<noteq> v" by simp_all
    from xr obtain a where ma: "m a = Some x" unfolding ran_def by blast
    with xv assms(1) have "a \<noteq> k" by auto
    with ma have "(m(k := None)) a = Some x" by simp
    then show "x \<in> ran (m(k := None))" by (rule ranI)
  qed
qed

lemma room_leave_directory_inv:
  assumes "directory_inv rm" "[] \<notin> ran (map_of (socketToDeviceId rm))"
  shows "directory_inv (fst (room_leave ws rm))"
proof (cases "map_of (socketToDeviceId rm) ws")
  case None
  then have "(map_of (socketToDeviceId rm))(ws := None) = map_of (socketToDeviceId rm)"
    by (auto intro!: ext)
  with None show ?thesis using assms(1)
    by (simp add: room_leave_def directory_inv_def Let_def delete_conv')
next
  case (Some d)
  let ?M = "map_of (socketToDeviceId rm)"
  from assms(1) have dr: "dom (map_of (devices rm)) = ran ?M" and inj: "inj_on ?M (dom ?M)"
    by (auto simp: directory_inv_def)
  from Some have din: "d \<in> ran ?M" by (auto simp: ran_def)
  with assms(2) have dne: "d \<noteq> []" by auto
  from din dr have has: "map_of (devices rm) d \<noteq> None" by (auto simp: dom_def)
  have 1: "ran (?M(ws := None)) = ran ?M - {d}"
    using ran_remove_inj[OF Some inj] .
  have 2: "inj_on (?M(ws := None)) (dom (?M(ws := None)))"
    using inj by (auto simp: inj_on_def dom_def split: if_splits)
  have 3: "dom ((map_of (devices rm))(d := None)) = dom (map_of (devices rm)) - {d}"
    by auto
  show ?thesis
    using Some dne has dr 1 2 3
    by (simp add: room_leave_def directory_inv_def Let_def delete_conv')
qed

lemma on_join_rooms:
  assumes "jm_roomId m = Some r" "r \<noteq> []"
  shows "map_of (rooms (fst (on_join rs s ws m))) =
         (map_of (rooms s))(r \<mapsto> room_join ws m
            (case map_of (rooms s) r of None \<Rightarrow> empty_room | Some rm \<Rightarrow> rm))"
  using assms
  by (auto simp: on_join_def getOrCreateRoom_def Let_def update_conv' map_add_def
      split: option.splits prod.splits intro!: ext)

lemma on_join_rooms_none:
  assumes "\<not> truthy (jm_roomId m)"
  shows "rooms (fst (on_join rs s ws m)) = rooms s"
  using assms
  by (auto simp: on_join_def truthy_def Let_def split: option.splits)

lemma cleanup_rooms:
  "map_of (fst (cleanupSocket rs ws rid rms)) =
     (case rid of None \<Rightarrow> map_of rms
      | Some r \<Rightarrow> if r = [] then map_of rms else
         (case map_of rms r of None \<Rightarrow> map_of rms
          | Some rm \<Rightarrow> if sockets (fst (room_leave ws rm)) = [] then (map_of rms)(r := None)
                       else (map_of rms)(r \<mapsto> fst (room_leave ws rm))))"
  by (auto simp: cleanupSocket_def Let_def update_conv' delete_conv' split: option.splits prod.splits)

lemma step_close_rooms:
  "rooms (fst (step rs s (Close ws))) = fst (cleanupSocket rs ws (roomIdOf s ws) (rooms s))"
  by (simp add: split_def Let_def)

lemma empty_room_props:
  "distinct (sockets empty_room)" "dom (map_of (socketToDeviceId empty_room)) \<subseteq> set (sockets empty_room)"
  "[] \<notin> ran (map_of (socketToDeviceId empty_room))" "directory_inv empty_room"
  by (simp_all add: empty_room_def directory_inv_def)

lemma sockets_invD:
  "sockets_inv rm \<Longrightarrow> distinct (sockets rm)"
  "sockets_inv rm \<Longrightarrow> dom (map_of (socketToDeviceId rm)) \<subseteq> set (sockets rm)"
  "sockets_inv rm \<Longrightarrow> [] \<notin> ran (map_of (socketToDeviceId rm))"
  by (simp_all add: sockets_inv_def)

lemma on_join_sockets_inv:
  assumes "server_sockets_inv s"
  shows "server_sockets_inv (fst (on_join rs s ws m))"
proof (cases "truthy (jm_roomId m)")
  case False
  then show ?thesis using assms by (simp add: server_sockets_inv_def on_join_rooms_none)
next
  case True
  then obtain r where r: "jm_roomId m = Some r" "r \<noteq> []"
    by (auto simp: truthy_def split: option.splits)
  let ?rm0 = "case map_of (rooms s) r of None \<Rightarrow> empty_room | Some rm \<Rightarrow> rm"
  have "sockets_inv (room_join ws m ?rm0)"
  proof (cases "map_of (rooms s) r")
    case None
    then show ?thesis by (simp add: room_join_sockets_inv empty_room_props)
  next
    case (Some rm)
    with assms have "sockets_inv rm" by (auto simp: server_sockets_inv_def)
    with Some show ?thesis by (simp add: room_join_sockets_inv sockets_invD)
  qed
  then show ?thesis
    using assms r(2) by (auto simp: server_sockets_inv_def on_join_rooms[OF r])
qed

lemma close_sockets_inv:
  assumes "server_sockets_inv s"
  shows "server_sockets_inv (fst (step rs s (Close ws)))"
  unfolding server_sockets_inv_def step_close_rooms cleanup_rooms
  using assms
  by (auto simp: server_sockets_inv_def room_leave_sockets_inv split: option.splits if_splits)

lemma step_sockets_inv:
  assumes "server_sockets_inv s"
  shows "server_sockets_inv (fst (step rs s e))"
proof (cases e)
  case (Message ws msg)
  then show ?thesis using assms on_join_sockets_inv by (cases msg) auto
next
  case (Close ws)
  then show ?thesis using assms close_sockets_inv by simp
qed

lemma on_join_directory_inv:
  assumes "server_directory_inv s" "join_fresh s ws m"
  shows "server_directory_inv (fst (on_join rs s ws m))"
proof (cases "truthy (jm_roomId m)")
  case False
  then show ?thesis using assms by (simp add: server_directory_inv_def on_join_rooms_none)
next
  case True
  then obtain r where r: "jm_roomId m = Some r" "r \<noteq> []"
    by (auto simp: truthy_def split: option.splits)
  let ?rm0 = "case map_of (rooms s) r of None \<Rightarrow> empty_room | Some rm \<Rightarrow> rm"
  have "directory_inv (room_join ws m ?rm0)"
  proof (cases "map_of (rooms s) r")
    case None
    have "directory_inv (room_join ws m empty_room)"
      by (rule room_join_directory_inv) (simp_all add: empty_room_props, simp_all add: empty_room_def)
    with None show ?thesis by simp
  next
    case (Some rm)
    with assms(1) have "directory_inv rm" by (auto simp: server_directory_inv_def)
    moreover have "map_of (devices rm) d = None \<and> map_of (socketToDeviceId rm) ws = None"
      if "jm_deviceId m = Some d" "d \<noteq> []" for d
      using assms(2) r Some that by (simp add: join_fresh_def)
    ultimately show ?thesis using Some by (simp add: room_join_directory_inv)
  qed
  then show ?thesis
    using assms(1) by (auto simp: server_directory_inv_def on_join_rooms[OF r])
qed

lemma close_directory_inv:
  assumes "server_sockets_inv s" "server_directory_inv s"
  shows "server_directory_inv (fst (step rs s (Close ws)))"
  unfolding server_directory_inv_def step_close_rooms cleanup_rooms
  using assms
  by (auto simp: server_sockets_inv_def server_directory_inv_def room_leave_directory_inv
      sockets_invD split: option.splits if_splits)

lemma run_sockets_inv:
  "server_sockets_inv s \<Longrightarrow> server_sockets_inv (run s evs)"
  by (induction evs arbitrary: s) (auto simp: step_sockets_inv)

lemma run_directory_inv:
  "server_sockets_inv s \<Longrightarrow> server_directory_inv s \<Longrightarrow> fresh_joins s evs \<Longrightarrow>
   server_directory_inv (run s evs)"
proof (induction evs arbitrary: s)
  case Nil
  then show ?case by simp
next
  case (Cons a evs)
  obtain rs e where a: "a = (rs, e)" by (cases a)
  have 1: "server_sockets_inv (fst (step rs s e))" using Cons.prems(1) by (rule step_sockets_inv)
  have 2: "server_directory_inv (fst (step rs s e))"
  proof (cases e)
    case (Message ws msg)
    show ?thesis
    proof (cases msg)
      case (Join m)
      with Message Cons.prems a show ?thesis by (simp add: on_join_directory_inv)
    qed (use Message Cons.prems in auto)
  next
    case (Close ws)
    with Cons.prems show ?thesis using close_directory_inv by simp
  qed
  from Cons.prems(3) a have 3: "fresh_joins (fst (step rs s e)) evs" by simp
  show ?case using Cons.IH[OF 1 2 3] a by simp
qed

lemma init_invs: "server_sockets_inv init_server" "server_directory_inv init_server"
  by (simp_all add: server_sockets_inv_def server_directory_inv_def init_server_def)

lemma run_snoc: "run s (evs @ [(rs, e)]) = fst (step rs (run s evs) e)"
  by (induction evs arbitrary: s) auto

lemma filter_removeAll: "filter P (removeAll x xs) = filter (\<lambda>c. c \<noteq> x \<and> P c) xs"
  by (induction xs) auto

lemma removeAll_empty_iff: "(removeAll x xs = []) = (set xs \<subseteq> {x})"
  by (induction xs) auto

subsection \<open>The invariant of the room state\<close>

text \<open>
  What the code keeps: after any run of events every entry of \<open>socketToDeviceId\<close> has a
  matching entry in \<open>sockets\<close> and every room of the registry has a non-empty \<open>sockets\<close>.
  The directory keeps step with the sockets only in runs whose joins are all fresh, where
  no two sockets of a room share a deviceId and no socket changes its deviceId.
\<close>

lemma registry_invariant:
  "registry_inv (run init_server evs) \<and>
   (fresh_joins init_server evs \<longrightarrow> directory_matches (run init_server evs))"
proof
  have si: "server_sockets_inv (run init_server evs)"
    by (rule run_sockets_inv) (rule init_invs)
  then show "registry_inv (run init_server evs)"
    by (auto simp: registry_inv_def server_sockets_inv_def sockets_inv_def dom_def)
  show "fresh_joins init_server evs \<longrightarrow> directory_matches (run init_server evs)"
  proof
    assume "fresh_joins init_server evs"
    then have "server_directory_inv (run init_server evs)"
      by (rule run_directory_inv[OF init_invs])
    then show "directory_matches (run init_server evs)"
      unfolding directory_matches_def server_directory_inv_def directory_inv_def
      by (auto simp: dom_def ran_def set_eq_iff)
  qed
qed

text \<open>
  Two sockets with the deviceId \<open>a\<close>, then the first disconnects: \<open>a\<close> is no key of
  \<open>devices\<close> while socket 2 maps to it.
\<close>

lemma directory_broken_by_shared_deviceId:
  "rooms (run init_server
     [(all_open, Message 1 (join_frame ''R'' ''a'')),
      (all_open, Message 2 (join_frame ''R'' ''a'')),
      (all_open, Close 1)])
     = [(''R'', \<lparr>devices = [], sockets = [2], socketToDeviceId = [(2, ''a'')]\<rparr>)] \<and>
   \<not> directory_matches (run init_server
     [(all_open, Message 1 (join_frame ''R'' ''a'')),
      (all_open, Message 2 (join_frame ''R'' ''a'')),
      (all_open, Close 1)])"
proof -
  let ?evs = "[(all_open, Message 1 (join_frame ''R'' ''a'')),
      (all_open, Message 2 (join_frame ''R'' ''a'')),
      (all_open, Close 1)]"
  have rm: "rooms (run init_server ?evs)
     = [(''R'', \<lparr>devices = [], sockets = [2], socketToDeviceId = [(2, ''a'')]\<rparr>)]"
    by (simp add: relay_eval)
  have "\<not> directory_matches (run init_server ?evs)"
  proof
    assume dm: "directory_matches (run init_server ?evs)"
    have m: "map_of (rooms (run init_server ?evs)) ''R'' =
        Some \<lparr>devices = [], sockets = [2], socketToDeviceId = [(2, ''a'')]\<rparr>"
      unfolding rm by simp
    from dm m have "(map_of (devices \<lparr>devices = [], sockets = [2], socketToDeviceId = [(2, ''a'')]\<rparr>) ''a'' \<noteq> None) =
        (\<exists>ws. map_of (socketToDeviceId \<lparr>devices = [], sockets = [2], socketToDeviceId = [(2, ''a'')]\<rparr>) ws = Some ''a'')"
      unfolding directory_matches_def by blast
    then have "\<not> (\<exists>ws. map_of [(2::nat, ''a'')] ws = Some ''a'')" by simp
    moreover have "map_of [(2::nat, ''a'')] 2 = Some ''a''" by simp
    ultimately have False by blast
    then show False by simp
  qed
  with rm show ?thesis by (intro conjI)
qed

text \<open>
  C2 does not hold of the code. Sockets 1 and 3 join room \<open>R\<close> with the deviceId \<open>a\<close> (the
  deviceId is kept per browser, so two tabs, or a reconnect before the old socket has
  closed, share it) and socket 2 joins with \<open>b\<close>. When socket 1 disconnects, \<open>cleanupSocket\<close>
  deletes \<open>a\<close> from \<open>devices\<close> and announces \<open>peer-left\<close> for \<open>a\<close> to sockets 2 and 3, although
  socket 3 still maps to \<open>a\<close>: \<open>a\<close> is no key of \<open>devices\<close> while a socket maps to it, and a
  signal from \<open>b\<close> to \<open>a\<close> is answered with \<open>TARGET_NOT_FOUND\<close>.
\<close>

theorem shared_deviceId_breaks_directory:
  "snd (step all_open (run init_server
     [(all_open, Message 1 (join_frame ''R'' ''a'')),
      (all_open, Message 2 (join_frame ''R'' ''b'')),
      (all_open, Message 3 (join_frame ''R'' ''a''))]) (Close 1)) = [(2, PeerLeft ''a'' ''R''), (3, PeerLeft ''a'' ''R'')] \<and>
   rooms (run init_server
     [(all_open, Message 1 (join_frame ''R'' ''a'')),
      (all_open, Message 2 (join_frame ''R'' ''b'')),
      (all_open, Message 3 (join_frame ''R'' ''a'')),
      (all_open, Close 1)]) =
     [(''R'', \<lparr>devices = [(''b'', \<lparr>deviceId = ''b'', deviceName = None, color = None\<rparr>)],
               sockets = [2, 3], socketToDeviceId = [(2, ''b''), (3, ''a'')]\<rparr>)] \<and>
   snd (step all_open (run init_server
     [(all_open, Message 1 (join_frame ''R'' ''a'')),
      (all_open, Message 2 (join_frame ''R'' ''b'')),
      (all_open, Message 3 (join_frame ''R'' ''a'')),
      (all_open, Close 1)])
     (Message 2 (Signal \<lparr>sm_roomId = Some ''R'', sm_from = Some ''b'', sm_to = Some ''a'',
                          sm_signalType = Some ''offer'', sm_payload = None\<rparr>))) =
     [(2, SignalError ''TARGET_NOT_FOUND'' ''a'' (Some ''offer''))]"
proof -
  let ?e3 = "[(all_open, Message 1 (join_frame ''R'' ''a'')),
      (all_open, Message 2 (join_frame ''R'' ''b'')),
      (all_open, Message 3 (join_frame ''R'' ''a''))]"
  let ?e4 = "[(all_open, Message 1 (join_frame ''R'' ''a'')),
      (all_open, Message 2 (join_frame ''R'' ''b'')),
      (all_open, Message 3 (join_frame ''R'' ''a'')),
      (all_open, Close 1)]"
  let ?rm3 = "\<lparr>devices = [(''a'', \<lparr>deviceId = ''a'', deviceName = None, color = None\<rparr>),
                         (''b'', \<lparr>deviceId = ''b'', deviceName = None, color = None\<rparr>)],
              sockets = [1, 2, 3], socketToDeviceId = [(1, ''a''), (2, ''b''), (3, ''a'')]\<rparr>"
  let ?rm4 = "\<lparr>devices = [(''b'', \<lparr>deviceId = ''b'', deviceName = None, color = None\<rparr>)],
              sockets = [2, 3], socketToDeviceId = [(2, ''b''), (3, ''a'')]\<rparr>"
  have r3: "rooms (run init_server ?e3) = [(''R'', ?rm3)]"
    by (simp add: relay_eval)
  have i3: "roomIdOf (run init_server ?e3) 1 = Some ''R''"
    by (simp add: relay_eval)
  have c: "cleanupSocket all_open 1 (Some ''R'') [(''R'', ?rm3)] =
      ([(''R'', ?rm4)], [(2, PeerLeft ''a'' ''R''), (3, PeerLeft ''a'' ''R'')])"
    by (simp add: cleanupSocket_def room_leave_def Let_def all_open_def)
  have 1: "snd (step all_open (run init_server ?e3) (Close 1)) =
      [(2, PeerLeft ''a'' ''R''), (3, PeerLeft ''a'' ''R'')]"
    unfolding step.simps r3 i3 c by simp
  have "rooms (fst (step all_open (run init_server ?e3) (Close 1))) = [(''R'', ?rm4)]"
    unfolding step.simps r3 i3 c by simp
  then have 2: "rooms (run init_server ?e4) = [(''R'', ?rm4)]"
    by (simp add: run_snoc [symmetric])
  have 3: "snd (step all_open (run init_server ?e4) (Message 2 (Signal \<lparr>sm_roomId = Some ''R'', sm_from = Some ''b'', sm_to = Some ''a'',
                          sm_signalType = Some ''offer'', sm_payload = None\<rparr>))) =
     [(2, SignalError ''TARGET_NOT_FOUND'' ''a'' (Some ''offer''))]"
    unfolding step.simps on_signal_def 2 by (simp add: truthy_def all_open_def)
  from 1 2 3 show ?thesis by (intro conjI)
qed

subsection \<open>Disconnects\<close>

text \<open>
  What \<open>cleanupSocket\<close> sends when a socket disconnects in a reachable state and the room
  named by its connection's \<open>roomId\<close> exists: if the socket had a deviceId that is a key of
  \<open>devices\<close>, one \<open>peer-left\<close> with it to every other socket of the room whose \<open>readyState\<close>
  is OPEN (the sockets of a room are distinct); otherwise nothing. The room is deleted
  exactly when no other socket is left in it.
\<close>

lemma close_sends:
  assumes "roomIdOf (run init_server evs) ws = Some r"
    and "map_of (rooms (run init_server evs)) r = Some rm"
  shows "snd (step rs (run init_server evs) (Close ws)) =
           (case map_of (socketToDeviceId rm) ws of
              None \<Rightarrow> []
            | Some d \<Rightarrow>
                if map_of (devices rm) d = None then []
                else map (\<lambda>c. (c, PeerLeft d r)) (filter (\<lambda>c. c \<noteq> ws \<and> rs c = 1) (sockets rm))) \<and>
         distinct (sockets rm) \<and>
         (map_of (rooms (fst (step rs (run init_server evs) (Close ws)))) r = None) =
           (set (sockets rm) \<subseteq> {ws})"
proof -
  let ?s = "run init_server evs"
  have si: "server_sockets_inv ?s"
    by (rule run_sockets_inv) (rule init_invs)
  with assms(2) have rne: "r \<noteq> []" and inv: "sockets_inv rm"
    by (auto simp: server_sockets_inv_def)
  have filt: "filter (\<lambda>c. rs c = 1) (removeAll ws (sockets rm)) =
      filter (\<lambda>c. c \<noteq> ws \<and> rs c = 1) (sockets rm)"
    by (rule filter_removeAll)
  have ne: "d \<noteq> []" if "map_of (socketToDeviceId rm) ws = Some d" for d
    using that inv by (auto simp: sockets_inv_def ran_def)
  have sk: "sockets (fst (room_leave ws rm)) = removeAll ws (sockets rm)"
    by (simp add: room_leave_def Let_def split: option.splits)
  have 1: "snd (step rs ?s (Close ws)) =
           (case map_of (socketToDeviceId rm) ws of
              None \<Rightarrow> []
            | Some d \<Rightarrow>
                if map_of (devices rm) d = None then []
                else map (\<lambda>c. (c, PeerLeft d r)) (filter (\<lambda>c. c \<noteq> ws \<and> rs c = 1) (sockets rm)))"
    using assms rne ne filt
    by (auto simp: cleanupSocket_def room_leave_def Let_def split_def split: option.splits)
  have 2: "distinct (sockets rm)" using inv by (simp add: sockets_inv_def)
  have "(removeAll ws (sockets rm) = []) = (set (sockets rm) \<subseteq> {ws})"
    by (rule removeAll_empty_iff)
  then have 3: "(map_of (rooms (fst (step rs ?s (Close ws)))) r = None) =
           (set (sockets rm) \<subseteq> {ws})"
    unfolding step_close_rooms cleanup_rooms using assms rne sk by simp
  from 1 2 3 show ?thesis by blast
qed

text \<open>
  C5 does not hold of the code. Sockets 1 and 2 join room \<open>R\<close> with the deviceId \<open>a\<close> and
  socket 3 joins with \<open>b\<close>. When socket 1 disconnects, \<open>peer-left\<close> for \<open>a\<close> goes to sockets 2
  and 3 and \<open>a\<close> is deleted from \<open>devices\<close>, although socket 2 is still connected as \<open>a\<close>. When
  socket 2 disconnects, it has the deviceId \<open>a\<close> and socket 3 is open and in the room, and
  nothing is sent: socket 3 gets no \<open>peer-left\<close> for this disconnect.
\<close>

theorem disconnect_misses_peer_left:
  "snd (step all_open (run init_server
     [(all_open, Message 1 (join_frame ''R'' ''a'')),
      (all_open, Message 2 (join_frame ''R'' ''a'')),
      (all_open, Message 3 (join_frame ''R'' ''b''))]) (Close 1)) = [(2, PeerLeft ''a'' ''R''), (3, PeerLeft ''a'' ''R'')] \<and>
   roomIdOf (run init_server
     [(all_open, Message 1 (join_frame ''R'' ''a'')),
      (all_open, Message 2 (join_frame ''R'' ''a'')),
      (all_open, Message 3 (join_frame ''R'' ''b'')),
      (all_open, Close 1)]) 2 = Some ''R'' \<and>
   rooms (run init_server
     [(all_open, Message 1 (join_frame ''R'' ''a'')),
      (all_open, Message 2 (join_frame ''R'' ''a'')),
      (all_open, Message 3 (join_frame ''R'' ''b'')),
      (all_open, Close 1)]) =
     [(''R'', \<lparr>devices = [(''b'', \<lparr>deviceId = ''b'', deviceName = None, color = None\<rparr>)],
               sockets = [2, 3], socketToDeviceId = [(2, ''a''), (3, ''b'')]\<rparr>)] \<and>
   all_open 3 = 1 \<and>
   snd (step all_open (run init_server
     [(all_open, Message 1 (join_frame ''R'' ''a'')),
      (all_open, Message 2 (join_frame ''R'' ''a'')),
      (all_open, Message 3 (join_frame ''R'' ''b'')),
      (all_open, Close 1)]) (Close 2)) = []"
proof -
  let ?f3 = "[(all_open, Message 1 (join_frame ''R'' ''a'')),
      (all_open, Message 2 (join_frame ''R'' ''a'')),
      (all_open, Message 3 (join_frame ''R'' ''b''))]"
  let ?f4 = "[(all_open, Message 1 (join_frame ''R'' ''a'')),
      (all_open, Message 2 (join_frame ''R'' ''a'')),
      (all_open, Message 3 (join_frame ''R'' ''b'')),
      (all_open, Close 1)]"
  let ?rm3 = "\<lparr>devices = [(''a'', \<lparr>deviceId = ''a'', deviceName = None, color = None\<rparr>),
                         (''b'', \<lparr>deviceId = ''b'', deviceName = None, color = None\<rparr>)],
              sockets = [1, 2, 3], socketToDeviceId = [(1, ''a''), (2, ''a''), (3, ''b'')]\<rparr>"
  let ?rm4 = "\<lparr>devices = [(''b'', \<lparr>deviceId = ''b'', deviceName = None, color = None\<rparr>)],
              sockets = [2, 3], socketToDeviceId = [(2, ''a''), (3, ''b'')]\<rparr>"
  have r3: "rooms (run init_server ?f3) = [(''R'', ?rm3)]"
    by (simp add: relay_eval)
  have i3: "roomIdOf (run init_server ?f3) 1 = Some ''R''"
    by (simp add: relay_eval)
  have j3: "roomIdOf (run init_server ?f3) 2 = Some ''R''"
    by (simp add: relay_eval)
  have c1: "cleanupSocket all_open 1 (Some ''R'') [(''R'', ?rm3)] =
      ([(''R'', ?rm4)], [(2, PeerLeft ''a'' ''R''), (3, PeerLeft ''a'' ''R'')])"
    by (simp add: cleanupSocket_def room_leave_def Let_def all_open_def)
  have 1: "snd (step all_open (run init_server ?f3) (Close 1)) =
      [(2, PeerLeft ''a'' ''R''), (3, PeerLeft ''a'' ''R'')]"
    unfolding step.simps r3 i3 c1 by simp
  have "rooms (fst (step all_open (run init_server ?f3) (Close 1))) = [(''R'', ?rm4)]"
    unfolding step.simps r3 i3 c1 by simp
  then have 3: "rooms (run init_server ?f4) = [(''R'', ?rm4)]"
    by (simp add: run_snoc [symmetric])
  have "roomIdOf (fst (step all_open (run init_server ?f3) (Close 1))) 2 = Some ''R''"
    unfolding step.simps r3 i3 c1 using j3 by simp
  then have 2: "roomIdOf (run init_server ?f4) 2 = Some ''R''"
    by (simp add: run_snoc [symmetric])
  have c2: "cleanupSocket all_open 2 (Some ''R'') [(''R'', ?rm4)] =
      ([(''R'', \<lparr>devices = [(''b'', \<lparr>deviceId = ''b'', deviceName = None, color = None\<rparr>)],
                 sockets = [3], socketToDeviceId = [(3, ''b'')]\<rparr>)], [])"
    by (simp add: cleanupSocket_def room_leave_def Let_def)
  have 5: "snd (step all_open (run init_server ?f4) (Close 2)) = []"
    unfolding step.simps 2 3 c2 by simp
  have 4: "all_open 3 = 1" by (simp add: all_open_def)
  from 1 2 3 4 5 show ?thesis by (intro conjI)
qed

text \<open>
  The room is not deleted with its last socket when that socket has joined another room
  since: the connection's \<open>roomId\<close> is overwritten by every \<open>join\<close>, and the close cleans up
  the last room only. Socket 1 joins \<open>R\<close>, then \<open>S\<close>, and disconnects: \<open>R\<close> stays in the
  registry with socket 1 in it.
\<close>

lemma rejoined_socket_stays_in_old_room:
  "rooms (run init_server
     [(all_open, Message 1 (join_frame ''R'' ''a'')),
      (all_open, Message 1 (join_frame ''S'' ''a'')),
      (all_open, Close 1)]) =
     [(''R'', \<lparr>devices = [(''a'', \<lparr>deviceId = ''a'', deviceName = None, color = None\<rparr>)],
               sockets = [1], socketToDeviceId = [(1, ''a'')]\<rparr>)]"
  by (simp add: relay_eval)

subsection \<open>Routing of signal frames\<close>

text \<open>
  C4, as the code has it: for a \<open>signal\<close> frame with a non-empty \<open>from\<close> and \<open>to\<close> whose
  room (the frame's \<open>roomId\<close>, or the connection's when the frame has none) exists: when \<open>to\<close>
  is not a key of the room's \<open>devices\<close>, the only frame sent is one \<open>signal-error\<close> with reason
  \<open>TARGET_NOT_FOUND\<close> to the sender, provided the sender's socket is OPEN; when \<open>to\<close> is a key,
  the frame is sent once to every OPEN socket that \<open>socketToDeviceId\<close> maps to \<open>to\<close>, and
  nothing else is sent. The registry is unchanged.
\<close>

theorem signal_routing:
  assumes "(if truthy (sm_roomId m) then sm_roomId m else roomIdOf s ws) = Some r"
    and "r \<noteq> []" and "map_of (rooms s) r = Some rm"
    and "sm_to m = Some t" and "t \<noteq> []" and "sm_from m = Some f" and "f \<noteq> []"
  shows "step rs s (Message ws (Signal m)) =
      (s, if map_of (devices rm) t = None
          then (if rs ws = 1 then [(ws, SignalError ''TARGET_NOT_FOUND'' t (sm_signalType m))] else [])
          else map (\<lambda>(c, d). (c, SignalFwd r f t (sm_signalType m) (sm_payload m)))
                 (filter (\<lambda>(c, d). d = t \<and> rs c = 1) (socketToDeviceId rm)))"
  using assms by (auto simp: on_signal_def Let_def split: option.splits)

text \<open>Device \<open>a\<close> on socket 1 signals device \<open>b\<close> on socket 2, both in room \<open>R\<close>.\<close>

theorem signal_routing_witness:
  "\<not> truthy (sm_roomId \<lparr>sm_roomId = None, sm_from = Some ''a'', sm_to = Some ''b'',
                          sm_signalType = Some ''offer'', sm_payload = Some ''sdp''\<rparr>) \<and>
   step all_open
     \<lparr>rooms = [(''R'', \<lparr>devices = [(''a'', \<lparr>deviceId = ''a'', deviceName = None, color = None\<rparr>),
                                    (''b'', \<lparr>deviceId = ''b'', deviceName = None, color = None\<rparr>)],
                        sockets = [1, 2],
                        socketToDeviceId = [(1, ''a''), (2, ''b'')]\<rparr>)],
      roomIdOf = (\<lambda>_. Some ''R'')\<rparr>
     (Message 1 (Signal \<lparr>sm_roomId = None, sm_from = Some ''a'', sm_to = Some ''b'',
                          sm_signalType = Some ''offer'', sm_payload = Some ''sdp''\<rparr>))
   = (\<lparr>rooms = [(''R'', \<lparr>devices = [(''a'', \<lparr>deviceId = ''a'', deviceName = None, color = None\<rparr>),
                                    (''b'', \<lparr>deviceId = ''b'', deviceName = None, color = None\<rparr>)],
                        sockets = [1, 2],
                        socketToDeviceId = [(1, ''a''), (2, ''b'')]\<rparr>)],
      roomIdOf = (\<lambda>_. Some ''R'')\<rparr>,
      [(2, SignalFwd ''R'' ''a'' ''b'' (Some ''offer'') (Some ''sdp''))])"
proof -
  let ?rm = "\<lparr>devices = [(''a'', \<lparr>deviceId = ''a'', deviceName = None, color = None\<rparr>),
                                    (''b'', \<lparr>deviceId = ''b'', deviceName = None, color = None\<rparr>)],
                        sockets = [1, 2],
                        socketToDeviceId = [(1, ''a''), (2, ''b'')]\<rparr>"
  let ?s = "\<lparr>rooms = [(''R'', ?rm)], roomIdOf = (\<lambda>_. Some ''R'')\<rparr>"
  let ?m = "\<lparr>sm_roomId = None, sm_from = Some ''a'', sm_to = Some ''b'',
                          sm_signalType = Some ''offer'', sm_payload = Some ''sdp''\<rparr>"
  have 0: "\<not> truthy (sm_roomId ?m)" by (simp add: truthy_def)
  have 1: "(if truthy (sm_roomId ?m) then sm_roomId ?m else roomIdOf ?s 1) = Some ''R''"
    by (simp add: truthy_def)
  have 2: "''R'' \<noteq> []" by simp
  have 3: "map_of (rooms ?s) ''R'' = Some ?rm" by simp
  have 4: "sm_to ?m = Some ''b''" by simp
  have 5: "''b'' \<noteq> []" by simp
  have 6: "sm_from ?m = Some ''a''" by simp
  have 7: "''a'' \<noteq> []" by simp
  note t = signal_routing [OF 1 2 3 4 5 6 7, of all_open]
  have "(if map_of (devices ?rm) ''b'' = None
          then (if all_open 1 = 1 then [(1, SignalError ''TARGET_NOT_FOUND'' ''b'' (sm_signalType ?m))] else [])
          else map (\<lambda>(c, d). (c, SignalFwd ''R'' ''a'' ''b'' (sm_signalType ?m) (sm_payload ?m)))
                 (filter (\<lambda>(c, d). d = ''b'' \<and> all_open c = 1) (socketToDeviceId ?rm)))
        = [(2, SignalFwd ''R'' ''a'' ''b'' (Some ''offer'') (Some ''sdp''))]"
    by (simp add: all_open_def)
  with t have "step all_open ?s (Message 1 (Signal ?m)) =
     (?s, [(2, SignalFwd ''R'' ''a'' ''b'' (Some ''offer'') (Some ''sdp''))])"
    by (simp only:)
  with 0 show ?thesis by (intro conjI)
qed

text \<open>
  A frame whose \<open>to\<close> is absent from the directory gets no \<open>signal-error\<close> when it has no
  \<open>from\<close>: device \<open>a\<close> is alone in room \<open>R\<close> and signals \<open>ghost\<close>.
\<close>

theorem signal_to_absent_target_without_from:
  "rooms (run init_server [(all_open, Message 1 (join_frame ''R'' ''a''))]) =
     [(''R'', \<lparr>devices = [(''a'', \<lparr>deviceId = ''a'', deviceName = None, color = None\<rparr>)],
               sockets = [1], socketToDeviceId = [(1, ''a'')]\<rparr>)] \<and>
   all_open 1 = 1 \<and>
   snd (step all_open (run init_server [(all_open, Message 1 (join_frame ''R'' ''a''))])
     (Message 1 (Signal \<lparr>sm_roomId = Some ''R'', sm_from = None, sm_to = Some ''ghost'',
                          sm_signalType = Some ''offer'', sm_payload = None\<rparr>))) = []"
  by (simp add: relay_eval on_signal_def truthy_def)

section \<open>Properties of the peer session hook\<close>

subsection \<open>The initiator\<close>

lemma js_lt_irrefl: "\<not> js_lt a a"
  by (induction a) auto

lemma js_lt_asym: "js_lt a b \<Longrightarrow> \<not> js_lt b a"
  by (induction a b rule: js_lt.induct) (auto split: if_splits)

lemma js_lt_total: "a \<noteq> b \<Longrightarrow> js_lt a b \<or> js_lt b a"
proof (induction a b rule: js_lt.induct)
  case (4 x xs y ys)
  show ?case
  proof (cases "(of_char x :: nat) = of_char y")
    case True
    then have "x = y" by simp
    with 4 show ?thesis by auto
  next
    case False
    then show ?thesis by auto
  qed
qed auto

text \<open>\<open>js_lt\<close> is the lexicographic order of the code units.\<close>

lemma js_lt_lexord:
  "js_lt a b = ((map of_char a, map of_char b) \<in> lexord {(m, n :: nat). m < n})"
  by (induction a b rule: js_lt.induct) auto

lemma initiate_peer_actions:
  assumes "A \<noteq> B" "map_of (peerConnections st) B = None" "B \<notin> set (connectingPeers st)"
  shows "snd (initiate_peer A st (Some B)) =
      (if B \<noteq> [] \<and> js_lt A B
       then [CreatePeerConnection B, CreateDataChannel B ''files'', CreateOffer B] else [])"
  using assms by (auto simp: initiate_peer_def Let_def)

lemma not_initiator_idle:
  "\<not> js_lt localId peerId \<Longrightarrow> snd (initiate_peer localId st (Some peerId)) = []"
  by (simp add: initiate_peer_def Let_def)

text \<open>
  C7: for two distinct device identifiers \<open>A\<close> and \<open>B\<close>, exactly one of \<open>A < B\<close> and
  \<open>B < A\<close> holds in the comparison of the two strings, and it alone decides who initiates:
  when \<open>A\<close> is the smaller, the hook of \<open>B\<close> never initiates towards \<open>A\<close>, whatever its
  state, and the hook of \<open>A\<close>, seeing \<open>B\<close> in \<open>signalingPeers\<close> with no connection to it yet,
  creates the peer connection, the data channel \<open>files\<close> and the offer. (With \<open>A\<close> and \<open>B\<close>
  exchanged this is the case of \<open>B\<close> the smaller.)
\<close>

theorem initiator_tie_break:
  assumes "A \<noteq> B"
  shows "(js_lt A B \<or> js_lt B A) \<and> \<not> (js_lt A B \<and> js_lt B A) \<and>
         (js_lt A B \<longrightarrow>
            snd (initiate_peer B sb (Some A)) = [] \<and>
            (map_of (peerConnections sa) B = None \<and> B \<notin> set (connectingPeers sa) \<longrightarrow>
               snd (initiate_peer A sa (Some B)) =
                 [CreatePeerConnection B, CreateDataChannel B ''files'', CreateOffer B]))"
proof (intro conjI impI)
  show "js_lt A B \<or> js_lt B A" using assms by (rule js_lt_total)
  show "\<not> (js_lt A B \<and> js_lt B A)" using js_lt_asym by blast
next
  assume "js_lt A B"
  then have "\<not> js_lt B A" by (rule js_lt_asym)
  then show "snd (initiate_peer B sb (Some A)) = []" by (rule not_initiator_idle)
next
  assume lt: "js_lt A B"
    and fresh: "map_of (peerConnections sa) B = None \<and> B \<notin> set (connectingPeers sa)"
  from lt have ne: "B \<noteq> []" by (cases A; cases B) auto
  from fresh have "snd (initiate_peer A sa (Some B)) =
      (if B \<noteq> [] \<and> js_lt A B
       then [CreatePeerConnection B, CreateDataChannel B ''files'', CreateOffer B] else [])"
    using assms by (intro initiate_peer_actions) simp_all
  with lt ne show "snd (initiate_peer A sa (Some B)) =
      [CreatePeerConnection B, CreateDataChannel B ''files'', CreateOffer B]"
    by simp
qed

text \<open>Two fresh hooks with the ids \<open>dev-a\<close> and \<open>dev-b\<close>: \<open>dev-a\<close> initiates.\<close>

theorem initiator_tie_break_witness:
  "''dev-a'' \<noteq> ''dev-b'' \<and>
   js_lt ''dev-a'' ''dev-b'' \<and> \<not> js_lt ''dev-b'' ''dev-a'' \<and>
   map_of (peerConnections init_peers) ''dev-b'' = None \<and>
   ''dev-b'' \<notin> set (connectingPeers init_peers) \<and>
   snd (initiate_peer ''dev-a'' init_peers (Some ''dev-b'')) =
     [CreatePeerConnection ''dev-b'', CreateDataChannel ''dev-b'' ''files'', CreateOffer ''dev-b''] \<and>
   snd (initiate_peer ''dev-b'' init_peers (Some ''dev-a'')) = []"
proof -
  have 1: "''dev-a'' \<noteq> ''dev-b''" by simp
  have 2: "map_of (peerConnections init_peers) ''dev-b'' = None" by (simp add: init_peers_def)
  have 3: "''dev-b'' \<notin> set (connectingPeers init_peers)" by (simp add: init_peers_def)
  have 4: "js_lt ''dev-a'' ''dev-b''" by simp
  have 5: "\<not> js_lt ''dev-b'' ''dev-a''" by simp
  note t = initiator_tie_break [OF 1, of init_peers init_peers, THEN conjunct2, THEN conjunct2,
      THEN mp, OF 4]
  from t have 6: "snd (initiate_peer ''dev-b'' init_peers (Some ''dev-a'')) = []"
    by (rule conjunct1)
  from 2 3 have "map_of (peerConnections init_peers) ''dev-b'' = None \<and>
      ''dev-b'' \<notin> set (connectingPeers init_peers)" by (rule conjI)
  with t [THEN conjunct2]
  have 7: "snd (initiate_peer ''dev-a'' init_peers (Some ''dev-b'')) =
     [CreatePeerConnection ''dev-b'', CreateDataChannel ''dev-b'' ''files'', CreateOffer ''dev-b'']"
    by (rule mp)
  from 1 4 5 2 3 7 6 show ?thesis by (intro conjI)
qed

subsection \<open>One data channel per peer\<close>

text \<open>
  C9: \<open>dataChannelsRef\<close> is a map, so a peer has at most one registered channel; a
  channel-ready notification for a peer that has one changes nothing (the channel stays), a
  notification for a peer without one registers the channel, and a second notification
  after it is ignored.
\<close>

theorem channel_never_overwritten:
  "(map_of (dataChannels st) peerId \<noteq> None \<longrightarrow> handleDataChannelReady st peerId channel = st) \<and>
   (map_of (dataChannels st) peerId = None \<longrightarrow>
      map_of (dataChannels (handleDataChannelReady st peerId channel)) peerId = Some channel \<and>
      handleDataChannelReady (handleDataChannelReady st peerId channel) peerId channel2 =
        handleDataChannelReady st peerId channel) \<and>
   (distinct (map fst (dataChannels st)) \<longrightarrow>
      distinct (map fst (dataChannels (handleDataChannelReady st peerId channel))))"
  by (auto simp: handleDataChannelReady_def update_conv' distinct_update)

text \<open>
  Peer \<open>dev-b\<close> has an open channel; a notification with another channel for \<open>dev-b\<close>
  leaves the state as it is.
\<close>

theorem channel_never_overwritten_witness:
  "map_of (dataChannels
      (init_peers\<lparr>dataChannels := [(''dev-b'', \<lparr>label = ''files'', readyState = Open\<rparr>)]\<rparr>))
      ''dev-b'' \<noteq> None \<and>
   handleDataChannelReady
      (init_peers\<lparr>dataChannels := [(''dev-b'', \<lparr>label = ''files'', readyState = Open\<rparr>)]\<rparr>)
      ''dev-b'' \<lparr>label = ''files'', readyState = Connecting\<rparr>
     = init_peers\<lparr>dataChannels := [(''dev-b'', \<lparr>label = ''files'', readyState = Open\<rparr>)]\<rparr> \<and>
   distinct (map fst (dataChannels
      (init_peers\<lparr>dataChannels := [(''dev-b'', \<lparr>label = ''files'', readyState = Open\<rparr>)]\<rparr>)))"
proof -
  let ?st = "init_peers\<lparr>dataChannels := [(''dev-b'', \<lparr>label = ''files'', readyState = Open\<rparr>)]\<rparr>"
  have 1: "map_of (dataChannels ?st) ''dev-b'' \<noteq> None" by simp
  have 2: "distinct (map fst (dataChannels ?st))" by simp
  from channel_never_overwritten
         [of ?st "''dev-b''" "\<lparr>label = ''files'', readyState = Connecting\<rparr>"] 1
  have "handleDataChannelReady ?st ''dev-b'' \<lparr>label = ''files'', readyState = Connecting\<rparr> = ?st"
    by blast
  with 1 2 show ?thesis by blast
qed

section \<open>Properties of the transfer engine\<close>

subsection \<open>Attribution of binary frames\<close>

lemma attribute_chunk_none:
  "\<forall>(i, b) \<in> set ents. \<not> incomplete_for p b \<Longrightarrow> attribute_chunk bt p d ents = ents"
  by (induction ents) (auto simp: incomplete_for_def)

lemma attribute_chunk_first:
  assumes "\<forall>(i, b) \<in> set pre. \<not> incomplete_for p b"
  shows "attribute_chunk bt p d (pre @ (tid, a) # post) =
     (if incomplete_for p a
      then pre @ (tid, a\<lparr>chunks := chunks a @ [d],
                        receivedBytes := receivedBytes a + byteLength_or_0 bt d\<rparr>) # post
      else pre @ (tid, a) # attribute_chunk bt p d post)"
  using assms by (induction pre) (auto simp: incomplete_for_def)

text \<open>
  C6, as the code has it: a binary frame on the channel of a peer is appended to the first
  assembly in the order of \<open>incomingStateRef\<close> (the order in which the transfer ids were
  first announced) that belongs to the peer and is still incomplete, whatever assemblies
  come after it; \<open>receivedBytes\<close> grows by \<open>event.data.byteLength || 0\<close>, and no other
  assembly changes. When the peer has no incomplete assembly the frame changes nothing.
\<close>

theorem chunk_attribution:
  "((\<forall>(i, b) \<in> set pre. \<not> incomplete_for peerId b) \<and> incomplete_for peerId a \<longrightarrow>
     onmessage bt peerId (st\<lparr>incomingState := pre @ (tid, a) # post\<rparr>) (Chunk d) =
       (st\<lparr>incomingState :=
             pre @ (tid, a\<lparr>chunks := chunks a @ [d],
                             receivedBytes := receivedBytes a + byteLength_or_0 bt d\<rparr>) # post\<rparr>, [])) \<and>
   ((\<forall>(i, b) \<in> set ents. \<not> incomplete_for peerId b) \<longrightarrow>
     onmessage bt peerId (st\<lparr>incomingState := ents\<rparr>) (Chunk d) = (st\<lparr>incomingState := ents\<rparr>, []))"
  by (simp add: onmessage_def attribute_chunk_first attribute_chunk_none)

text \<open>
  Four assemblies, in the order of their announcement: one of peer \<open>q\<close>, a complete one of
  peer \<open>p\<close>, and two incomplete ones of \<open>p\<close> (\<open>a.txt\<close>, then \<open>b.txt\<close>). A chunk of 2 bytes from
  \<open>p\<close>, delivered as a \<open>Blob\<close>, goes to \<open>a.txt\<close>, the first incomplete one of \<open>p\<close>, and its
  \<open>receivedBytes\<close> stays 0; \<open>b.txt\<close>, announced last, is unchanged.
\<close>

theorem chunk_attribution_witness:
  "list_all (\<lambda>(i, b). \<not> incomplete_for ''p'' b)
     [(Tx 1 1, \<lparr>in_peerId = ''q'', in_name = ''q.txt'', in_size = 9, in_mimeType = ''text/plain'',
                receivedBytes = 0, chunks = []\<rparr>),
      (Tx 2 1, \<lparr>in_peerId = ''p'', in_name = ''done.txt'', in_size = 1,
                in_mimeType = ''text/plain'', receivedBytes = 1, chunks = [[9]]\<rparr>)] \<and>
   incomplete_for ''p'' \<lparr>in_peerId = ''p'', in_name = ''a.txt'', in_size = 4,
                          in_mimeType = ''text/plain'', receivedBytes = 0, chunks = []\<rparr> \<and>
   onmessage BlobType ''p''
     (init_hook\<lparr>incomingState :=
        [(Tx 1 1, \<lparr>in_peerId = ''q'', in_name = ''q.txt'', in_size = 9,
                   in_mimeType = ''text/plain'', receivedBytes = 0, chunks = []\<rparr>),
         (Tx 2 1, \<lparr>in_peerId = ''p'', in_name = ''done.txt'', in_size = 1,
                   in_mimeType = ''text/plain'', receivedBytes = 1, chunks = [[9]]\<rparr>),
         (Tx 2 2, \<lparr>in_peerId = ''p'', in_name = ''a.txt'', in_size = 4,
                   in_mimeType = ''text/plain'', receivedBytes = 0, chunks = []\<rparr>),
         (Tx 2 3, \<lparr>in_peerId = ''p'', in_name = ''b.txt'', in_size = 4,
                   in_mimeType = ''text/plain'', receivedBytes = 0, chunks = []\<rparr>)]\<rparr>)
     (Chunk [1, 2]) =
   (init_hook\<lparr>incomingState :=
        [(Tx 1 1, \<lparr>in_peerId = ''q'', in_name = ''q.txt'', in_size = 9,
                   in_mimeType = ''text/plain'', receivedBytes = 0, chunks = []\<rparr>),
         (Tx 2 1, \<lparr>in_peerId = ''p'', in_name = ''done.txt'', in_size = 1,
                   in_mimeType = ''text/plain'', receivedBytes = 1, chunks = [[9]]\<rparr>),
         (Tx 2 2, \<lparr>in_peerId = ''p'', in_name = ''a.txt'', in_size = 4,
                   in_mimeType = ''text/plain'', receivedBytes = 0, chunks = [[1, 2]]\<rparr>),
         (Tx 2 3, \<lparr>in_peerId = ''p'', in_name = ''b.txt'', in_size = 4,
                   in_mimeType = ''text/plain'', receivedBytes = 0, chunks = []\<rparr>)]\<rparr>, [])"
proof -
  let ?pre = "[(Tx 1 1, \<lparr>in_peerId = ''q'', in_name = ''q.txt'', in_size = 9,
                 in_mimeType = ''text/plain'', receivedBytes = 0, chunks = []\<rparr>),
               (Tx 2 1, \<lparr>in_peerId = ''p'', in_name = ''done.txt'', in_size = 1,
                 in_mimeType = ''text/plain'', receivedBytes = 1, chunks = [[9]]\<rparr>)]"
  let ?a = "\<lparr>in_peerId = ''p'', in_name = ''a.txt'', in_size = 4,
             in_mimeType = ''text/plain'', receivedBytes = 0, chunks = []\<rparr>"
  let ?post = "[(Tx 2 3, \<lparr>in_peerId = ''p'', in_name = ''b.txt'', in_size = 4,
                  in_mimeType = ''text/plain'', receivedBytes = 0, chunks = []\<rparr>)]"
  have 0: "list_all (\<lambda>(i, b). \<not> incomplete_for ''p'' b) ?pre"
    by (simp add: incomplete_for_def)
  have 1: "incomplete_for ''p'' ?a" by (simp add: incomplete_for_def)
  have 2: "\<forall>(i, b) \<in> set ?pre. \<not> incomplete_for ''p'' b"
    by (simp add: incomplete_for_def)
  from 2 1 have 3: "(\<forall>(i, b) \<in> set ?pre. \<not> incomplete_for ''p'' b) \<and> incomplete_for ''p'' ?a"
    by (rule conjI)
  have "onmessage BlobType ''p'' (init_hook\<lparr>incomingState := ?pre @ (Tx 2 2, ?a) # ?post\<rparr>)
          (Chunk [1, 2]) =
       (init_hook\<lparr>incomingState :=
             ?pre @ (Tx 2 2, ?a\<lparr>chunks := chunks ?a @ [[1, 2]],
                               receivedBytes := receivedBytes ?a + byteLength_or_0 BlobType [1, 2]\<rparr>)
               # ?post\<rparr>, [])"
    by (rule chunk_attribution [where pre = ?pre and peerId = "''p''" and a = ?a
          and st = init_hook and tid = "Tx 2 2" and post = ?post and d = "[1, 2]"
          and bt = BlobType, THEN conjunct1, THEN mp, OF 3])
  then have 4: "onmessage BlobType ''p''
     (init_hook\<lparr>incomingState := ?pre @ (Tx 2 2, ?a) # ?post\<rparr>) (Chunk [1, 2]) =
     (init_hook\<lparr>incomingState :=
        ?pre @ (Tx 2 2, \<lparr>in_peerId = ''p'', in_name = ''a.txt'', in_size = 4,
                   in_mimeType = ''text/plain'', receivedBytes = 0, chunks = [[1, 2]]\<rparr>) # ?post\<rparr>, [])"
    by (simp add: byteLength_or_0_def)
  from 0 1 4 show ?thesis by simp
qed

text \<open>
  The claim names the most recently announced incomplete transfer; the code takes the
  first. Peer \<open>p\<close> announces \<open>a.txt\<close> and then \<open>b.txt\<close>, 4 bytes each, and sends a chunk of
  2 bytes: it goes to \<open>a.txt\<close>, and \<open>b.txt\<close>, announced last, gets nothing (here with the
  frame delivered as an \<open>ArrayBuffer\<close>; as a \<open>Blob\<close> only \<open>receivedBytes\<close> differs).
\<close>

theorem chunk_goes_to_first_announced:
  "incomingState (fst (receive_all ArrayBufferType ''p'' init_hook
      [FileMeta (Tx 1 1) ''a.txt'' 4 ''text/plain'' ''p'',
       FileMeta (Tx 1 2) ''b.txt'' 4 ''text/plain'' ''p'',
       Chunk [1, 2]])) =
     [(Tx 1 1, \<lparr>in_peerId = ''p'', in_name = ''a.txt'', in_size = 4, in_mimeType = ''text/plain'',
                receivedBytes = 2, chunks = [[1, 2]]\<rparr>),
      (Tx 1 2, \<lparr>in_peerId = ''p'', in_name = ''b.txt'', in_size = 4, in_mimeType = ''text/plain'',
                receivedBytes = 0, chunks = []\<rparr>)]"
  by (simp add: onmessage_def init_hook_def byteLength_or_0_def)

subsection \<open>Backpressure\<close>

lemma sendChunk_wait:
  "highWaterMark < b \<Longrightarrow> sendChunk tid f st cs b = (st\<lparr>phase := Waiting\<rparr>, [SetTimeout 50])"
  by (simp add: sendChunk_def)

lemma polls_above_mark:
  "\<forall>(cs, b) \<in> set polls. highWaterMark < b \<Longrightarrow>
   sender_run tid f (st\<lparr>phase := Waiting\<rparr>) (map (\<lambda>(cs, b). OnTimer cs b) polls) =
     (st\<lparr>phase := Waiting\<rparr>, replicate (length polls) (SetTimeout 50))"
proof (induction polls)
  case Nil
  then show ?case by simp
next
  case (Cons a polls)
  obtain cs b where a: "a = (cs, b)" by (cases a)
  with Cons.prems have b: "highWaterMark < b" by simp
  from Cons have "sender_run tid f (st\<lparr>phase := Waiting\<rparr>) (map (\<lambda>(cs, b). OnTimer cs b) polls) =
     (st\<lparr>phase := Waiting\<rparr>, replicate (length polls) (SetTimeout 50))" by simp
  with b a show ?case by (simp add: sendChunk_wait)
qed

text \<open>
  C8, as the code has it: when \<open>sendChunk\<close> finds the buffered amount above the mark of
  4 MiB, it sends nothing, leaves the offset as it is and sets a timer of 50 ms to try
  again, from \<open>onload\<close> as from the timer; a run of polls that all find the amount above
  the mark sends nothing and sets one timer of 50 ms each; and the first poll that finds
  the amount at or below the mark, on an open channel, sends the chunk at the offset.
\<close>

theorem backpressure:
  "(highWaterMark < b \<longrightarrow>
      sender_step tid f (st\<lparr>phase := Reading\<rparr>) (OnLoad Open b) =
        (st\<lparr>phase := Waiting\<rparr>, [SetTimeout 50]) \<and>
      sender_step tid f (st\<lparr>phase := Waiting\<rparr>) (OnTimer cs b) =
        (st\<lparr>phase := Waiting\<rparr>, [SetTimeout 50])) \<and>
   ((\<forall>(cs, b) \<in> set polls. highWaterMark < b) \<longrightarrow>
      sender_run tid f (st\<lparr>phase := Waiting\<rparr>) (map (\<lambda>(cs, b). OnTimer cs b) polls) =
        (st\<lparr>phase := Waiting\<rparr>, replicate (length polls) (SetTimeout 50))) \<and>
   (b' \<le> highWaterMark \<longrightarrow>
      sent_frames (snd (sender_step tid f (st\<lparr>phase := Waiting\<rparr>) (OnTimer Open b'))) =
        Chunk (blob_slice (f_bytes f) (offset st) (offset st + CHUNK_SIZE)) #
        (if offset st + CHUNK_SIZE < length (f_bytes f) then [] else [FileComplete tid]))"
  by (auto simp: sendChunk_wait polls_above_mark) (auto simp: sendChunk_def Let_def)

text \<open>
  A send of a file of 3 bytes that waits: two polls above the mark set two timers, and
  the poll that finds the buffer empty sends the chunk and \<open>file-complete\<close>.
\<close>

theorem backpressure_witness:
  "highWaterMark < highWaterMark + 1 \<and>
   sender_step (Tx 1 1) \<lparr>f_ref = 0, f_name = ''a.txt'', f_bytes = [1, 2, 3], f_type = ''text/plain''\<rparr> \<lparr>offset = 0, phase = Reading\<rparr> (OnLoad Open (highWaterMark + 1)) =
     (\<lparr>offset = 0, phase = Waiting\<rparr>, [SetTimeout 50]) \<and>
   sender_run (Tx 1 1) \<lparr>f_ref = 0, f_name = ''a.txt'', f_bytes = [1, 2, 3], f_type = ''text/plain''\<rparr> \<lparr>offset = 0, phase = Waiting\<rparr>
       [OnTimer Open (highWaterMark + 7), OnTimer Open (highWaterMark + 1)] =
     (\<lparr>offset = 0, phase = Waiting\<rparr>, [SetTimeout 50, SetTimeout 50]) \<and>
   (0 :: nat) \<le> highWaterMark \<and>
   sent_frames (snd (sender_step (Tx 1 1) \<lparr>f_ref = 0, f_name = ''a.txt'', f_bytes = [1, 2, 3], f_type = ''text/plain''\<rparr> \<lparr>offset = 0, phase = Waiting\<rparr> (OnTimer Open 0))) =
     [Chunk [1, 2, 3], FileComplete (Tx 1 1)]"
proof -
  let ?f = "\<lparr>f_ref = 0, f_name = ''a.txt'', f_bytes = [1, 2, 3], f_type = ''text/plain''\<rparr>"
  let ?st = "\<lparr>offset = 0, phase = Reading\<rparr>"
  let ?polls = "[(Open, highWaterMark + 7), (Open, highWaterMark + 1)]"
  note t = backpressure [of "highWaterMark + 1" "Tx 1 1" ?f ?st Open ?polls 0]
  have 1: "highWaterMark < highWaterMark + 1" by simp
  have 2: "\<forall>(cs, b) \<in> set ?polls. highWaterMark < b" by simp
  have 3: "(0 :: nat) \<le> highWaterMark" by simp
  from t 1 have a: "sender_step (Tx 1 1) ?f (?st\<lparr>phase := Reading\<rparr>) (OnLoad Open (highWaterMark + 1)) =
        (?st\<lparr>phase := Waiting\<rparr>, [SetTimeout 50])"
    by blast
  from t 2 have b: "sender_run (Tx 1 1) ?f (?st\<lparr>phase := Waiting\<rparr>)
        (map (\<lambda>(cs, b). OnTimer cs b) ?polls) =
        (?st\<lparr>phase := Waiting\<rparr>, replicate (length ?polls) (SetTimeout 50))"
    by blast
  from t 3 have c: "sent_frames (snd (sender_step (Tx 1 1) ?f (?st\<lparr>phase := Waiting\<rparr>) (OnTimer Open 0))) =
        Chunk (blob_slice (f_bytes ?f) (offset ?st) (offset ?st + CHUNK_SIZE)) #
        (if offset ?st + CHUNK_SIZE < length (f_bytes ?f) then [] else [FileComplete (Tx 1 1)])"
    by blast
  have a': "sender_step (Tx 1 1) ?f \<lparr>offset = 0, phase = Reading\<rparr> (OnLoad Open (highWaterMark + 1)) =
     (\<lparr>offset = 0, phase = Waiting\<rparr>, [SetTimeout 50])"
    using a by simp
  have b': "sender_run (Tx 1 1) ?f \<lparr>offset = 0, phase = Waiting\<rparr>
       [OnTimer Open (highWaterMark + 7), OnTimer Open (highWaterMark + 1)] =
     (\<lparr>offset = 0, phase = Waiting\<rparr>, [SetTimeout 50, SetTimeout 50])"
    using b by (simp add: numeral_2_eq_2)
  have c': "sent_frames (snd (sender_step (Tx 1 1) ?f \<lparr>offset = 0, phase = Waiting\<rparr> (OnTimer Open 0))) =
     [Chunk [1, 2, 3], FileComplete (Tx 1 1)]"
    using c by (simp add: blob_slice_def CHUNK_SIZE_def)
  from 1 a' b' 3 c' show ?thesis by (intro conjI)
qed

text \<open>
  The claim lets the send go on only below the mark; the code sends at the mark. A poll
  above the mark is followed by a poll that finds exactly 4 MiB buffered, which is not
  below the mark, and the chunk is sent.
\<close>

theorem chunk_sent_at_the_mark:
  "\<not> highWaterMark < highWaterMark \<and>
   sender_run (Tx 1 1) \<lparr>f_ref = 0, f_name = ''a.txt'', f_bytes = [1, 2, 3], f_type = ''text/plain''\<rparr>
     \<lparr>offset = 0, phase = Reading\<rparr> [OnLoad Open (highWaterMark + 1), OnTimer Open highWaterMark] =
   (\<lparr>offset = CHUNK_SIZE, phase = Finished\<rparr>,
    [SetTimeout 50, ChanSend (Chunk [1, 2, 3]), ChanSend (FileComplete (Tx 1 1)), SetStatus Completed])"
  by (simp add: sendChunk_def Let_def blob_slice_def CHUNK_SIZE_def highWaterMark_def)

subsection \<open>The chunking round trip\<close>










lemma receive_all_append:
  "receive_all bt p h (xs @ ys) =
     (let (h1, d1) = receive_all bt p h xs; (h2, d2) = receive_all bt p h1 ys in (h2, d1 @ d2))"
  by (induction xs arbitrary: h) (auto simp: Let_def split: prod.splits)














subsection \<open>The retry budget of a queued send\<close>

lemma reconcile_peer_not_open:
  "\<not> channel_open channelsByPeer peerId \<Longrightarrow>
   reconcile_peer channelsByPeer now localId st peerId = (st, [])"
  by (auto simp: reconcile_peer_def channel_open_def split: option.splits)

lemma reconcile_single_not_open:
  assumes "map fst (pendingFiles st) = [peerId]" "\<not> channel_open channelsByPeer peerId"
  shows "reconcile channelsByPeer now localId st = (st, [])"
  using assms by (simp add: reconcile_def reconcile_peer_not_open)

lemma reconcile_passes_not_open:
  assumes "map fst (pendingFiles st) = [peerId]"
    and "\<forall>(channelsByPeer, now) \<in> set passes. \<not> channel_open channelsByPeer peerId"
  shows "reconcile_passes localId st passes = (st, [])"
  using assms
proof (induction passes)
  case Nil
  then show ?case by simp
next
  case (Cons a passes)
  obtain ch now where a: "a = (ch, now)" by (cases a)
  with Cons.prems have "\<not> channel_open ch peerId" by simp
  with Cons.prems(1) have "reconcile ch now localId st = (st, [])"
    by (rule reconcile_single_not_open)
  moreover from Cons have "reconcile_passes localId st passes = (st, [])" by simp
  ultimately show ?case using a by simp
qed

lemma send_not_open:
  assumes "\<not> channel_open channelsByPeer peerId"
  shows "sendFileToPeer channelsByPeer now localId init_hook peerId f =
    (\<lparr>transfers = [\<lparr>t_id = Tx now 1, t_direction = Send, t_peerId = peerId, t_name = f_name f,
                      t_size = length (f_bytes f), t_status = Queued\<rparr>],
      pendingFiles = [(peerId, [\<lparr>p_file = f, p_transferId = Tx now 1, p_retries = 0\<rparr>])],
      transferCounter = 1, incomingState = []\<rparr>, [])"
  using assms
  by (auto simp: sendFileToPeer_def sendFileToPeerInternal_def enqueue_def createTransferId_def
      init_hook_def channel_open_def split: option.splits)

text \<open>
  C1 does not hold of the code. A file sent while its peer has no open channel is queued
  with \<open>retries: 0\<close>, and as long as the channel is not open every reconciliation pass
  leaves the state as it is: the transfer stays \<open>queued\<close>, no retry is counted, nothing
  is dispatched, and the transfer is never marked \<open>failed\<close>, however many passes run.
\<close>

theorem queued_send_never_fails:
  assumes "\<not> channel_open channels0 peerId"
    and "\<forall>(channelsByPeer, now) \<in> set passes. \<not> channel_open channelsByPeer peerId"
  shows "reconcile_passes localId (fst (sendFileToPeer channels0 now0 localId init_hook peerId f)) passes =
    (\<lparr>transfers = [\<lparr>t_id = Tx now0 1, t_direction = Send, t_peerId = peerId, t_name = f_name f,
                      t_size = length (f_bytes f), t_status = Queued\<rparr>],
      pendingFiles = [(peerId, [\<lparr>p_file = f, p_transferId = Tx now0 1, p_retries = 0\<rparr>])],
      transferCounter = 1, incomingState = []\<rparr>, [])"
proof -
  let ?st = "\<lparr>transfers = [\<lparr>t_id = Tx now0 1, t_direction = Send, t_peerId = peerId, t_name = f_name f,
                      t_size = length (f_bytes f), t_status = Queued\<rparr>],
      pendingFiles = [(peerId, [\<lparr>p_file = f, p_transferId = Tx now0 1, p_retries = 0\<rparr>])],
      transferCounter = 1, incomingState = []\<rparr>"
  have 1: "fst (sendFileToPeer channels0 now0 localId init_hook peerId f) = ?st"
    using send_not_open[OF assms(1)] by simp
  have 2: "map fst (pendingFiles ?st) = [peerId]" by simp
  show ?thesis unfolding 1 using 2 assms(2) by (rule reconcile_passes_not_open)
qed

text \<open>
  A file is sent to peer \<open>p\<close> before any channel exists; six passes follow while the
  channel of \<open>p\<close> is still \<open>connecting\<close>.
\<close>

theorem queued_send_never_fails_witness:
  "\<not> channel_open [] ''p'' \<and>
   list_all (\<lambda>(channelsByPeer, now). \<not> channel_open channelsByPeer ''p'')
     [([(''p'', \<lparr>label = ''files'', readyState = Connecting\<rparr>)], 2 :: nat),
      ([(''p'', \<lparr>label = ''files'', readyState = Connecting\<rparr>)], 3),
      ([(''p'', \<lparr>label = ''files'', readyState = Connecting\<rparr>)], 4),
      ([(''p'', \<lparr>label = ''files'', readyState = Connecting\<rparr>)], 5),
      ([(''p'', \<lparr>label = ''files'', readyState = Connecting\<rparr>)], 6),
      ([(''p'', \<lparr>label = ''files'', readyState = Connecting\<rparr>)], 7)] \<and>
   reconcile_passes ''me''
     (fst (sendFileToPeer [] 1 ''me'' init_hook ''p''
        \<lparr>f_ref = 0, f_name = ''a.txt'', f_bytes = [1, 2, 3], f_type = ''text/plain''\<rparr>))
     [([(''p'', \<lparr>label = ''files'', readyState = Connecting\<rparr>)], 2),
      ([(''p'', \<lparr>label = ''files'', readyState = Connecting\<rparr>)], 3),
      ([(''p'', \<lparr>label = ''files'', readyState = Connecting\<rparr>)], 4),
      ([(''p'', \<lparr>label = ''files'', readyState = Connecting\<rparr>)], 5),
      ([(''p'', \<lparr>label = ''files'', readyState = Connecting\<rparr>)], 6),
      ([(''p'', \<lparr>label = ''files'', readyState = Connecting\<rparr>)], 7)] =
    (\<lparr>transfers = [\<lparr>t_id = Tx 1 1, t_direction = Send, t_peerId = ''p'', t_name = ''a.txt'',
                      t_size = 3, t_status = Queued\<rparr>],
      pendingFiles =
        [(''p'', [\<lparr>p_file = \<lparr>f_ref = 0, f_name = ''a.txt'', f_bytes = [1, 2, 3],
                               f_type = ''text/plain''\<rparr>,
                   p_transferId = Tx 1 1, p_retries = 0\<rparr>])],
      transferCounter = 1, incomingState = []\<rparr>, [])"
proof -
  let ?c = "[(''p'', \<lparr>label = ''files'', readyState = Connecting\<rparr>)]"
  let ?passes = "[(?c, 2 :: nat), (?c, 3), (?c, 4), (?c, 5), (?c, 6), (?c, 7)]"
  let ?f = "\<lparr>f_ref = 0, f_name = ''a.txt'', f_bytes = [1, 2, 3], f_type = ''text/plain''\<rparr>"
  have 1: "\<not> channel_open [] ''p''" by (simp add: channel_open_def)
  have 2: "\<forall>(channelsByPeer, now) \<in> set ?passes. \<not> channel_open channelsByPeer ''p''"
    by (simp add: channel_open_def)
  have "reconcile_passes ''me'' (fst (sendFileToPeer [] 1 ''me'' init_hook ''p'' ?f)) ?passes =
    (\<lparr>transfers = [\<lparr>t_id = Tx 1 1, t_direction = Send, t_peerId = ''p'', t_name = f_name ?f,
                      t_size = length (f_bytes ?f), t_status = Queued\<rparr>],
      pendingFiles = [(''p'', [\<lparr>p_file = ?f, p_transferId = Tx 1 1, p_retries = 0\<rparr>])],
      transferCounter = 1, incomingState = []\<rparr>, [])"
    using 1 2 by (rule queued_send_never_fails)
  then have 3: "reconcile_passes ''me'' (fst (sendFileToPeer [] 1 ''me'' init_hook ''p'' ?f)) ?passes =
    (\<lparr>transfers = [\<lparr>t_id = Tx 1 1, t_direction = Send, t_peerId = ''p'', t_name = ''a.txt'',
                      t_size = 3, t_status = Queued\<rparr>],
      pendingFiles = [(''p'', [\<lparr>p_file = ?f, p_transferId = Tx 1 1, p_retries = 0\<rparr>])],
      transferCounter = 1, incomingState = []\<rparr>, [])"
    by simp
  have 4: "list_all (\<lambda>(channelsByPeer, now). \<not> channel_open channelsByPeer ''p'') ?passes"
    by (simp add: channel_open_def)
  from 1 4 3 show ?thesis by (intro conjI)
qed

text \<open>
  The branch for an exhausted budget does not remove the entry either: a pending entry
  with 5 retries, on an open channel, is marked \<open>failed\<close> by a pass and stays in the queue
  (only the entries of \<open>filesToSend\<close> are spliced out).
\<close>

lemma exhausted_entry_stays_in_queue:
  "reconcile [(''p'', \<lparr>label = ''files'', readyState = Open\<rparr>)] 9 ''me''
     \<lparr>transfers = [\<lparr>t_id = Tx 1 1, t_direction = Send, t_peerId = ''p'', t_name = ''a.txt'',
                      t_size = 3, t_status = Queued\<rparr>],
      pendingFiles = [(''p'', [\<lparr>p_file = \<lparr>f_ref = 0, f_name = ''a.txt'', f_bytes = [1, 2, 3], f_type = ''text/plain''\<rparr>,
                                p_transferId = Tx 1 1, p_retries = 5\<rparr>])],
      transferCounter = 1, incomingState = []\<rparr> =
   (\<lparr>transfers = [\<lparr>t_id = Tx 1 1, t_direction = Send, t_peerId = ''p'', t_name = ''a.txt'',
                      t_size = 3, t_status = Failed\<rparr>],
      pendingFiles = [(''p'', [\<lparr>p_file = \<lparr>f_ref = 0, f_name = ''a.txt'', f_bytes = [1, 2, 3], f_type = ''text/plain''\<rparr>,
                                p_transferId = Tx 1 1, p_retries = 5\<rparr>])],
      transferCounter = 1, incomingState = []\<rparr>, [])"
  by (simp add: reconcile_def reconcile_peer_def set_status_def Let_def)

end
